theory Spec2Isabelle
  imports Complex_Main "HOL-Library.Sublist"
begin

section \<open>Python strings\<close>

text \<open>
  The script \<^verbatim>\<open>ris_full_workflow.py\<close> is modelled function by function. A Python
  \<^verbatim>\<open>str\<close> is a \<^typ>\<open>string\<close>, one \<^typ>\<open>char\<close> for one character: the texts modelled
  are those of characters below 256, which holds every character the script tests for.
  The string methods and builtins the script calls are written out below with the
  behaviour CPython gives them on such texts.
\<close>

abbreviation NL :: char where "NL \<equiv> CHR 0x0A"
abbreviation CR :: char where "CR \<equiv> CHR 0x0D"

text \<open>\<^verbatim>\<open>s.startswith(p)\<close> is \<^const>\<open>prefix\<close> \<open>p s\<close>.\<close>

text \<open>
  \<^verbatim>\<open>s.replace(old, new)\<close>: the occurrences of \<open>old\<close> are found from the left and do not
  overlap; with an empty \<open>old\<close> Python puts \<open>new\<close> before every character and at the end.
\<close>

function str_replace :: "string \<Rightarrow> string \<Rightarrow> string \<Rightarrow> string" where
  "str_replace old new [] = (if old = [] then new else [])"
| "str_replace old new (c # cs) =
     (if old = [] then new @ c # str_replace old new cs
      else if prefix old (c # cs)
        then new @ str_replace old new (drop (length old) (c # cs))
      else c # str_replace old new cs)"
  by pat_completeness auto
termination
  by (relation "measure (\<lambda>(old, new, s). length s)") auto

text \<open>\<^verbatim>\<open>s.count(sub)\<close> for a non-empty \<open>sub\<close>: occurrences from the left, not overlapping.\<close>

function str_count :: "string \<Rightarrow> string \<Rightarrow> nat" where
  "str_count sub [] = 0"
| "str_count sub (c # cs) =
     (if sub \<noteq> [] \<and> prefix sub (c # cs)
        then Suc (str_count sub (drop (length sub) (c # cs)))
      else str_count sub cs)"
  by pat_completeness auto
termination
  by (relation "measure (\<lambda>(sub, s). length s)") auto

text \<open>
  \<^verbatim>\<open>s.split(sep)\<close> for a non-empty \<open>sep\<close> (the script passes literals only): the pieces
  between the occurrences of \<open>sep\<close>, found from the left; never an empty list.
\<close>

function str_split :: "string \<Rightarrow> string \<Rightarrow> string list" where
  "str_split sep [] = [[]]"
| "str_split sep (c # cs) =
     (if sep \<noteq> [] \<and> prefix sep (c # cs)
        then [] # str_split sep (drop (length sep) (c # cs))
      else (case str_split sep cs of
              p # ps \<Rightarrow> (c # p) # ps
            | [] \<Rightarrow> [[c]]))"
  by pat_completeness auto
termination
  by (relation "measure (\<lambda>(sep, s). length s)") auto

text \<open>\<^verbatim>\<open>sub in s\<close>: \<open>sub\<close> occurs in \<open>s\<close> as a substring.\<close>

fun str_contains :: "string \<Rightarrow> string \<Rightarrow> bool" where
  "str_contains sub [] = (sub = [])"
| "str_contains sub (c # cs) = (prefix sub (c # cs) \<or> str_contains sub cs)"

text \<open>
  \<^verbatim>\<open>s.strip()\<close> removes the characters Python calls whitespace (\<^verbatim>\<open>str.isspace\<close>) from
  both ends: below 256 these are \<^verbatim>\<open>\t \n \v \f \r\<close>, the separators \<^verbatim>\<open>\x1c\<close> to
  \<^verbatim>\<open>\x1f\<close>, the space, \<^verbatim>\<open>\x85\<close> and \<^verbatim>\<open>\xa0\<close>.
\<close>

definition is_space :: "char \<Rightarrow> bool" where
  "is_space c \<longleftrightarrow> c \<in> set [CHR 0x09, NL, CHR 0x0B, CHR 0x0C, CR, CHR 0x1C, CHR 0x1D,
     CHR 0x1E, CHR 0x1F, CHR 0x20, CHR 0x85, CHR 0xA0]"

definition lstrip :: "string \<Rightarrow> string" where
  "lstrip s = dropWhile is_space s"

definition rstrip :: "string \<Rightarrow> string" where
  "rstrip s = rev (dropWhile is_space (rev s))"

definition strip :: "string \<Rightarrow> string" where
  "strip s = rstrip (lstrip s)"

subsection \<open>The exceptions of the script, as values\<close>

datatype py_error =
  ValueError | OverflowError | IndexError | AttributeError | TypeError
  | HTTPError | RequestError

subsection \<open>\<^verbatim>\<open>int(s)\<close> and \<^verbatim>\<open>str(n)\<close>\<close>

text \<open>
  \<^verbatim>\<open>int(s)\<close> in base ten, as CPython reads it: whitespace at both ends is skipped (here
  \<^verbatim>\<open>\t \n \v \f \r\<close>, the space, and the two spaces above 127), then one optional sign,
  then decimal digits, where single underscores may stand between digits. Anything else
  is a \<^verbatim>\<open>ValueError\<close>, here \<open>None\<close>. (CPython also refuses, with the same
  \<^verbatim>\<open>ValueError\<close>, a numeral of more digits than its conversion limit; the model has
  no such limit.)
\<close>

definition int_space :: "char \<Rightarrow> bool" where
  "int_space c \<longleftrightarrow> c \<in> set [CHR 0x09, NL, CHR 0x0B, CHR 0x0C, CR, CHR 0x20, CHR 0x85, CHR 0xA0]"

definition digit_val :: "char \<rightharpoonup> nat" where
  "digit_val = map_of
     [(CHR ''0'', 0), (CHR ''1'', 1), (CHR ''2'', 2), (CHR ''3'', 3), (CHR ''4'', 4),
      (CHR ''5'', 5), (CHR ''6'', 6), (CHR ''7'', 7), (CHR ''8'', 8), (CHR ''9'', 9)]"

fun scan_digits :: "nat \<Rightarrow> char \<Rightarrow> string \<Rightarrow> nat option" where
  "scan_digits acc prev [] = (if prev = CHR ''_'' then None else Some acc)"
| "scan_digits acc prev (c # cs) =
     (if c = CHR ''_'' then (if prev = CHR ''_'' then None else scan_digits acc c cs)
      else (case digit_val c of
              None \<Rightarrow> None
            | Some d \<Rightarrow> scan_digits (10 * acc + d) c cs))"

definition parse_digits :: "string \<Rightarrow> nat option" where
  "parse_digits s =
     (case s of
        [] \<Rightarrow> None
      | c # cs \<Rightarrow> if c = CHR ''_'' then None else scan_digits 0 (CHR 0x00) (c # cs))"

definition py_int :: "string \<Rightarrow> int option" where
  "py_int s =
     (let t = dropWhile int_space s;
          (neg, u) = (case t of
                        c # r \<Rightarrow> if c = CHR ''-'' then (True, r)
                                 else if c = CHR ''+'' then (False, r) else (False, t)
                      | [] \<Rightarrow> (False, t));
          v = rev (dropWhile int_space (rev u))
      in map_option (\<lambda>n. if neg then - int n else int n) (parse_digits v))"

text \<open>\<^verbatim>\<open>str(n)\<close> of an integer: its decimal digits, with a minus sign when negative.\<close>

fun str_nat :: "nat \<Rightarrow> string" where
  "str_nat n =
     (if n < 10 then [''0123456789'' ! n]
      else str_nat (n div 10) @ [''0123456789'' ! (n mod 10)])"

definition py_str :: "int \<Rightarrow> string" where
  "py_str i = (if i < 0 then CHR ''-'' # str_nat (nat (- i)) else str_nat (nat i))"

section \<open>Dates\<close>

text \<open>
  A \<^verbatim>\<open>datetime\<close> value. \<^verbatim>\<open>datetime(year, month, day)\<close> checks its arguments: a value
  that does not fit a C \<^verbatim>\<open>int\<close> is an \<^verbatim>\<open>OverflowError\<close>, a year outside 1..9999, a
  month outside 1..12 or a day the month does not have is a \<^verbatim>\<open>ValueError\<close>; the time
  of day of the new value is midnight.
\<close>

record datetime =
  year :: int
  month :: int
  day :: int
  hour :: int
  minute :: int
  second :: int
  microsecond :: int

definition is_leap :: "int \<Rightarrow> bool" where
  "is_leap y \<longleftrightarrow> y mod 4 = 0 \<and> (y mod 100 \<noteq> 0 \<or> y mod 400 = 0)"

definition days_in_month :: "int \<Rightarrow> int \<Rightarrow> int" where
  "days_in_month y m =
     (if m = 2 then (if is_leap y then 29 else 28)
      else if m = 4 \<or> m = 6 \<or> m = 9 \<or> m = 11 then 30 else 31)"

definition c_int :: "int \<Rightarrow> bool" where
  "c_int i \<longleftrightarrow> - 2147483648 \<le> i \<and> i \<le> 2147483647"

definition mk_datetime :: "int \<Rightarrow> int \<Rightarrow> int \<Rightarrow> py_error + datetime" where
  "mk_datetime y m d =
     (if \<not> (c_int y \<and> c_int m \<and> c_int d) then Inl OverflowError
      else if y < 1 \<or> 9999 < y \<or> m < 1 \<or> 12 < m \<or> d < 1 \<or> days_in_month y m < d
        then Inl ValueError
      else Inr \<lparr>year = y, month = m, day = d, hour = 0, minute = 0, second = 0,
                 microsecond = 0\<rparr>)"

text \<open>
  \<^verbatim>\<open>
  def prompt_for_date():
      today = datetime.now()
      ...
      user_input = input("\nDate: ").strip()
      if not user_input:
          return today
      try:
          normalized = user_input.replace("-", "/")
          parts = normalized.split("/")
          if len(parts) == 3:
              year = int(parts[0]); month = int(parts[1]); day = int(parts[2])
          elif len(parts) == 2:
              year = today.year; month = int(parts[0]); day = int(parts[1])
          else:
              raise ValueError("Invalid format")
          selected_date = datetime(year, month, day)
          return selected_date
      except Exception as e:
          return today
  \<close>
  The clock and the console are the arguments: \<open>today\<close> is what \<^verbatim>\<open>datetime.now()\<close>
  returns, \<open>line\<close> is the line \<^verbatim>\<open>input\<close> returns. The messages the function prints
  do not bear on its result and are left out. \<open>parse_date\<close> is the body of the
  \<^verbatim>\<open>try\<close>, with every exception it can raise as an \<open>Inl\<close>.
\<close>

definition int_or_raise :: "string \<Rightarrow> py_error + int" where
  "int_or_raise s = (case py_int s of None \<Rightarrow> Inl ValueError | Some i \<Rightarrow> Inr i)"

definition parse_date :: "datetime \<Rightarrow> string \<Rightarrow> py_error + datetime" where
  "parse_date today user_input =
     (let normalized = str_replace ''-'' ''/'' user_input;
          parts = str_split ''/'' normalized
      in case parts of
           [p0, p1, p2] \<Rightarrow>
             (case int_or_raise p0 of Inl e \<Rightarrow> Inl e | Inr y \<Rightarrow>
              case int_or_raise p1 of Inl e \<Rightarrow> Inl e | Inr m \<Rightarrow>
              case int_or_raise p2 of Inl e \<Rightarrow> Inl e | Inr d \<Rightarrow>
                mk_datetime y m d)
         | [p0, p1] \<Rightarrow>
             (case int_or_raise p0 of Inl e \<Rightarrow> Inl e | Inr m \<Rightarrow>
              case int_or_raise p1 of Inl e \<Rightarrow> Inl e | Inr d \<Rightarrow>
                mk_datetime (year today) m d)
         | _ \<Rightarrow> Inl ValueError)"

definition prompt_for_date :: "datetime \<Rightarrow> string \<Rightarrow> datetime" where
  "prompt_for_date today line =
     (let user_input = strip line
      in if user_input = [] then today
         else (case parse_date today user_input of
                 Inr selected_date \<Rightarrow> selected_date
               | Inl e \<Rightarrow> today))"

section \<open>The number of reports\<close>

text \<open>
  \<^verbatim>\<open>
  num_input = input("\nNumber of reports: ").strip()
  try:
      num_reports = int(num_input)
      if num_reports < 1:
          num_reports = 1
  except ValueError:
      print("Invalid number. Defaulting to 1.")
      num_reports = 1
  \<close>
\<close>

definition parse_num_reports :: "string \<Rightarrow> int" where
  "parse_num_reports line =
     (let num_input = strip line
      in case py_int num_input of
           Some num_reports \<Rightarrow> if num_reports < 1 then 1 else num_reports
         | None \<Rightarrow> 1)"

section \<open>Escaping text for \<^verbatim>\<open>type_keys\<close>\<close>

text \<open>
  \<^verbatim>\<open>
  def escape_for_type_keys(text):
      text = text.replace("\r\n", "\n").replace("\r", "\n")
      special = {"{": "{{}", "}": "{}}", "+": "{+}", "^": "{^}", "%": "{%}",
                 "(": "{(}", ")": "{)}"}
      result = []
      for ch in text:
          if ch in special:
              result.append(special[ch])
          elif ch == "\n":
              result.append("{ENTER}")
          else:
              result.append(ch)
      return "".join(result)
  \<close>
\<close>

definition special :: "char \<rightharpoonup> string" where
  "special = map_of
     [(CHR ''{'', ''{{}''), (CHR ''}'', ''{}}''), (CHR ''+'', ''{+}''), (CHR ''^'', ''{^}''),
      (CHR ''%'', ''{%}''), (CHR ''('', ''{(}''), (CHR '')'', ''{)}'')]"

definition escape_char :: "char \<Rightarrow> string" where
  "escape_char ch =
     (case special ch of
        Some s \<Rightarrow> s
      | None \<Rightarrow> if ch = NL then ''{ENTER}'' else [ch])"

definition normalize_newlines :: "string \<Rightarrow> string" where
  "normalize_newlines text = str_replace [CR] [NL] (str_replace [CR, NL] [NL] text)"

definition escape_for_type_keys :: "string \<Rightarrow> string" where
  "escape_for_type_keys text = concat (map escape_char (normalize_newlines text))"

text \<open>
  The reverse reading of an escaped text, as \<^verbatim>\<open>type_keys\<close> reads it: a brace opens a
  token, \<^verbatim>\<open>{x}\<close> for a special character \<open>x\<close> is that character typed literally,
  \<^verbatim>\<open>{ENTER}\<close> is a new line. A special character outside a token, or a brace that
  opens none of the eight tokens, is an unescaped occurrence: the reading fails with
  \<open>None\<close>.
\<close>

definition special_chars :: "char list" where
  "special_chars = ''{}+^%()''"

fun read_token :: "string \<Rightarrow> (char \<times> string) option" where
  "read_token (b # x # e # rest) =
     (if b = CHR ''{'' \<and> x \<in> set special_chars \<and> e = CHR ''}'' then Some (x, rest)
      else if prefix ''{ENTER}'' (b # x # e # rest) then Some (NL, drop 7 (b # x # e # rest))
      else None)"
| "read_token _ = None"

function unescape :: "string \<Rightarrow> string option" where
  "unescape [] = Some []"
| "unescape (c # cs) =
     (if c = CHR ''{'' then
        (case read_token (c # cs) of
           None \<Rightarrow> None
         | Some (x, rest) \<Rightarrow>
             (if length rest < length (c # cs)
              then map_option ((#) x) (unescape rest) else None))
      else if c \<in> set special_chars then None
      else map_option ((#) c) (unescape cs))"
  by pat_completeness auto
termination
  by (relation "measure length") auto

text \<open>
  The newlines of a text, counted as the claim counts them: \<^verbatim>\<open>\r\n\<close> is one newline,
  a lone \<^verbatim>\<open>\r\<close> or \<^verbatim>\<open>\n\<close> is one.
\<close>

fun count_newlines :: "string \<Rightarrow> nat" where
  "count_newlines [] = 0"
| "count_newlines [c] = (if c = CR \<or> c = NL then 1 else 0)"
| "count_newlines (c # d # cs) =
     (if c = CR \<and> d = NL then Suc (count_newlines cs)
      else if c = CR \<or> c = NL then Suc (count_newlines (d # cs))
      else count_newlines (d # cs))"

definition no_unescaped_special :: "string \<Rightarrow> bool" where
  "no_unescaped_special s \<longleftrightarrow> unescape s \<noteq> None"

section \<open>What the script does to the outside world\<close>

text \<open>
  The script acts on the desktop, the clipboard, the file system and the network. A
  modelled function returns, next to its result, the list of its effects in the order
  they happen; what the outside world answers (the clipboard's content, the text a
  control shows, the reply of the endpoint) is an argument. Of the console output only
  the lines that report a failure or a warning are kept (\<open>Print\<close>); a call of
  \<^verbatim>\<open>log_message\<close>, which appends a line to the workflow log, is a \<open>LogLine\<close>.
  \<open>DeleteImage\<close> is the removal of the image file if there is one. An image is its size
  in pixels.
\<close>

type_synonym image = "nat \<times> nat"

datatype effect =
    LogLine string
  | Print string
  | Click int int
  | Keys string
  | TypeKeys string
  | ClearClipboard
  | DeleteImage
  | SaveImage image
  | HttpPost string image
  | RawLogHeader
  | RawLogText string
  | ReportFile string

section \<open>The inference client\<close>

subsection \<open>The response body\<close>

text \<open>
  What \<^verbatim>\<open>res.json()\<close> returns. A dict is the list of its items, with distinct keys; a
  float is kept as the text \<^verbatim>\<open>str\<close> gives it, which is all the script can do with it.
\<close>

datatype json =
    JNull
  | JBool bool
  | JInt int
  | JFloat string
  | JStr string
  | JList "json list"
  | JDict "(string \<times> json) list"

text \<open>Python's truth value of a value, which decides \<^verbatim>\<open>a or b\<close>.\<close>

fun truthy :: "json \<Rightarrow> bool" where
  "truthy JNull = False"
| "truthy (JBool b) = b"
| "truthy (JInt i) = (i \<noteq> 0)"
| "truthy (JFloat r) = (r \<noteq> ''0.0'' \<and> r \<noteq> ''-0.0'')"
| "truthy (JStr s) = (s \<noteq> [])"
| "truthy (JList xs) = (xs \<noteq> [])"
| "truthy (JDict d) = (d \<noteq> [])"

definition dict_get :: "(string \<times> json) list \<Rightarrow> string \<Rightarrow> json \<Rightarrow> json" where
  "dict_get d k dflt = (case map_of d k of Some v \<Rightarrow> v | None \<Rightarrow> dflt)"

text \<open>
  \<^verbatim>\<open>
  if isinstance(result, list):
      content = result[0].get("generated_text", "")
  elif isinstance(result, dict):
      content = result.get("generated_text", "") or result.get("text", "")
  else:
      content = str(result)
  \<close>
  An empty list has no \<^verbatim>\<open>result[0]\<close> (\<^verbatim>\<open>IndexError\<close>), and a first element that is
  not a dict has no \<^verbatim>\<open>get\<close> (\<^verbatim>\<open>AttributeError\<close>).
\<close>

fun extract_content :: "json \<Rightarrow> py_error + json" where
  "extract_content (JList []) = Inl IndexError"
| "extract_content (JList (JDict d # rest)) = Inr (dict_get d ''generated_text'' (JStr []))"
| "extract_content (JList (other # rest)) = Inl AttributeError"
| "extract_content (JDict d) =
     (let g = dict_get d ''generated_text'' (JStr [])
      in Inr (if truthy g then g else dict_get d ''text'' (JStr [])))"
| "extract_content JNull = Inr (JStr ''None'')"
| "extract_content (JBool b) = Inr (JStr (if b then ''True'' else ''False''))"
| "extract_content (JInt i) = Inr (JStr (py_str i))"
| "extract_content (JFloat r) = Inr (JStr r)"
| "extract_content (JStr s) = Inr (JStr s)"

subsection \<open>Cleaning the generated text\<close>

text \<open>
  \<^verbatim>\<open>
  if content.startswith(prompt):
      content = content[len(prompt):].strip()
  content = content.split("\n\n")[0].strip()
  with open(REPORT_PATH, "w", encoding="utf-8") as f: f.write(content)
  findings = content.strip()
  return findings
  \<close>
\<close>

definition strip_prompt :: "string \<Rightarrow> string \<Rightarrow> string" where
  "strip_prompt prompt content =
     (if prefix prompt content then strip (drop (length prompt) content) else content)"

definition first_paragraph :: "string \<Rightarrow> string" where
  "first_paragraph content =
     (case str_split [NL, NL] content of p # ps \<Rightarrow> p | [] \<Rightarrow> [])"

definition clean_response :: "string \<Rightarrow> string \<Rightarrow> string" where
  "clean_response prompt content = strip (first_paragraph (strip_prompt prompt content))"

subsection \<open>\<^verbatim>\<open>analyze_image\<close>\<close>

text \<open>
  The instruction sent with the image. Its dash is an em dash, which lies beyond 255: it
  is written here as the three bytes of its UTF-8 form. The code only compares the
  prompt with the start of the response and measures its length, and what is proved
  about that below is proved for every prompt.
\<close>

definition prompt :: string where
  "prompt = ''Describe the findings in this chest X-ray in plain text. ''
     @ ''Ignore any overlaid text such as '' @ [CHR 0x27]
     @ ''Please refer to arrow(s) in key image(s)'' @ [CHR 0x27, CHR '' '']
     @ [CHR 0xE2, CHR 0x80, CHR 0x94, CHR '' '']
     @ ''that is a software annotation, not part of the X-ray. ''
     @ ''Do not include it in your response.''"

text \<open>
  \<^verbatim>\<open>
  max_side = 1024
  if max(img.size) > max_side:
      img.thumbnail((max_side, max_side), Image.LANCZOS)
  \<close>
  \<^verbatim>\<open>Image.thumbnail\<close> is Pillow's; the size it computes for a box and an image is the
  argument \<open>thumbnail\<close>.
\<close>

definition resize_for_upload :: "(image \<Rightarrow> image \<Rightarrow> image) \<Rightarrow> image \<Rightarrow> image" where
  "resize_for_upload thumbnail img =
     (let max_side = 1024
      in if max (fst img) (snd img) > max_side then thumbnail (max_side, max_side) img
         else img)"

text \<open>
  Modelled from the spec: missing from the sources is \<^verbatim>\<open>Image.thumbnail\<close>, which is
  Pillow's and not part of the repository. The spec says of the step that it downscales
  so that the longer side is at most 1024 px, preserving the aspect ratio. The size rule
  below is the one \<^verbatim>\<open>Image.thumbnail\<close> follows to do that, with exact real numbers
  where Pillow computes in floating point:
  \<^verbatim>\<open>
  def round_aspect(number, key):
      return max(min(math.floor(number), math.ceil(number), key=key), 1)

  x, y = provided_size
  if x >= self.width and y >= self.height:
      return
  aspect = self.width / self.height
  if x / y >= aspect:
      x = round_aspect(y * aspect, key=lambda n: abs(aspect - n / y))
  else:
      y = round_aspect(x / aspect, key=lambda n: 0 if n == 0 else abs(aspect - x / n))
  return x, y
  \<close>
  \<^verbatim>\<open>min\<close> with a key returns the first of its arguments when the keys are equal. An
  image has a positive width and height.
\<close>

definition round_aspect :: "real \<Rightarrow> (int \<Rightarrow> real) \<Rightarrow> int" where
  "round_aspect number key =
     max (if key \<lfloor>number\<rfloor> \<le> key \<lceil>number\<rceil> then \<lfloor>number\<rfloor> else \<lceil>number\<rceil>) 1"

definition pillow_thumbnail :: "image \<Rightarrow> image \<Rightarrow> image" where
  "pillow_thumbnail box img =
     (let x = int (fst box); y = int (snd box);
          width = int (fst img); height = int (snd img)
      in if x \<ge> width \<and> y \<ge> height then img
         else
           (let aspect = (of_int width / of_int height :: real)
            in if of_int x / of_int y \<ge> aspect
               then (nat (round_aspect (of_int y * aspect)
                            (\<lambda>n. \<bar>aspect - of_int n / of_int y\<bar>)),
                     snd box)
               else (fst box,
                     nat (round_aspect (of_int x / aspect)
                            (\<lambda>n. if n = 0 then 0 else \<bar>aspect - of_int x / of_int n\<bar>)))))"

text \<open>Two sizes have the same aspect ratio when their widths are to each other as their heights.\<close>

definition same_aspect :: "image \<Rightarrow> image \<Rightarrow> bool" where
  "same_aspect a b \<longleftrightarrow> fst a * snd b = fst b * snd a"

text \<open>
  The reply of the endpoint: none (the request raised), or a status code with the body
  as \<^verbatim>\<open>res.json()\<close> reads it (\<open>None\<close> when the body is not JSON).
  \<^verbatim>\<open>raise_for_status\<close> raises for the codes 400 to 599.

  \<^verbatim>\<open>
  def analyze_image():
      log_message("\n=== STEP 3: AI Analysis ===")
      if not os.path.exists(TEMP_IMAGE_PATH):
          return None
      ... (resize, encode, build the payload)
      try:
          res = requests.post(api_url, headers=headers, json=payload, timeout=120)
          res.raise_for_status()
          result = res.json()
          ... (content, as above)
          with open(raw_log_path, "a", encoding="utf-8") as f:
              ... (three header lines)
              f.write(content)
              f.write("\n")
          ... (cleaning, as above)
          with open(REPORT_PATH, "w", encoding="utf-8") as f: f.write(content)
          findings = content.strip()
          return findings
      except requests.exceptions.HTTPError as e:
          print(f"API HTTP Error: {e}")
          return None
      except Exception as e:
          print(f"API Error: {e}")
          return None
  \<close>
  \<open>file\<close> is the image at the fixed path, \<open>None\<close> when no file is there; a file that
  is there is taken to be an image Pillow can open. The effect \<open>HttpPost\<close> holds the
  prompt and the size of the image sent.
\<close>

datatype http_reply = NoReply | Reply nat "json option"

definition analyze_image ::
  "(image \<Rightarrow> image \<Rightarrow> image) \<Rightarrow> image option \<Rightarrow> http_reply \<Rightarrow> string option \<times> effect list"
where
  "analyze_image thumbnail file reply =
     (let started = [LogLine (NL # ''=== STEP 3: AI Analysis ==='')]
      in case file of
           None \<Rightarrow> (None, started)
         | Some img \<Rightarrow>
             (let posted = started @ [HttpPost prompt (resize_for_upload thumbnail img)]
              in case reply of
                   NoReply \<Rightarrow> (None, posted @ [Print ''API Error''])
                 | Reply code body \<Rightarrow>
                     if 400 \<le> code \<and> code < 600
                     then (None, posted @ [Print ''API HTTP Error''])
                     else (case body of
                             None \<Rightarrow> (None, posted @ [Print ''API Error''])
                           | Some result \<Rightarrow>
                               (case extract_content result of
                                  Inl e \<Rightarrow> (None, posted @ [Print ''API Error''])
                                | Inr (JStr content) \<Rightarrow>
                                    (let cleaned = clean_response prompt content
                                     in (Some (strip cleaned),
                                         posted @ [RawLogHeader, RawLogText content,
                                                   ReportFile cleaned]))
                                | Inr other \<Rightarrow>
                                    (None, posted @ [RawLogHeader, Print ''API Error''])))))"

section \<open>Setting the date pickers\<close>

text \<open>
  The part of \<^verbatim>\<open>search_and_open\<close> that sets the dates:
  \<^verbatim>\<open>
  for i, (dp, rect) in enumerate(date_pickers):
      for attempt in range(3):
          year_x = rect.left + 30
          center_y = (rect.top + rect.bottom) // 2
          mouse_click(year_x, center_y)
          send_keys(str(now.year), pause=0.1)
          send_keys("{RIGHT}", pause=0.1)
          send_keys(str(now.month), pause=0.1)
          send_keys("{RIGHT}", pause=0.1)
          send_keys(str(now.day), pause=0.1)
          send_keys("{ENTER}", pause=0.1)
          send_keys("{TAB}", pause=0.1)
          new_date = dp.window_text()
          expected_date = f"{now.year}/{now.month}/{now.day}"
          if expected_date in new_date or new_date == expected_date:
              break
          else:
              time.sleep(0.5)
      else:
          print(f"    [WARN] WARNING: Could not set date picker {i} to today's date after 3 attempts!")
  \<close>
  A date picker is its rectangle and what it shows: \<open>shown k\<close> is the text
  \<^verbatim>\<open>dp.window_text()\<close> returns after attempt \<open>k\<close>. The host application decides it.
\<close>

record rect =
  rect_left :: int
  rect_top :: int
  rect_right :: int
  rect_bottom :: int

type_synonym date_picker = "rect \<times> (nat \<Rightarrow> string)"

definition type_date :: "datetime \<Rightarrow> rect \<Rightarrow> effect list" where
  "type_date now r =
     [Click (rect_left r + 30) ((rect_top r + rect_bottom r) div 2),
      Keys (py_str (year now)), Keys ''{RIGHT}'',
      Keys (py_str (month now)), Keys ''{RIGHT}'',
      Keys (py_str (day now)), Keys ''{ENTER}'', Keys ''{TAB}'']"

definition expected_date :: "datetime \<Rightarrow> string" where
  "expected_date now = py_str (year now) @ ''/'' @ py_str (month now) @ ''/'' @ py_str (day now)"

definition date_matches :: "string \<Rightarrow> string \<Rightarrow> bool" where
  "date_matches expected new_date \<longleftrightarrow> str_contains expected new_date \<or> new_date = expected"

text \<open>
  The inner loop, from attempt \<open>attempt\<close> with \<open>n\<close> attempts left: whether it left by
  \<^verbatim>\<open>break\<close>, and its effects.
\<close>

fun date_attempts ::
  "datetime \<Rightarrow> rect \<Rightarrow> (nat \<Rightarrow> string) \<Rightarrow> nat \<Rightarrow> nat \<Rightarrow> bool \<times> effect list"
where
  "date_attempts now r shown attempt 0 = (False, [])"
| "date_attempts now r shown attempt (Suc n) =
     (if date_matches (expected_date now) (shown attempt) then (True, type_date now r)
      else (let (ok, es) = date_attempts now r shown (Suc attempt) n
            in (ok, type_date now r @ es)))"

definition date_warning :: "nat \<Rightarrow> string" where
  "date_warning i = ''    [WARN] WARNING: Could not set date picker '' @ py_str (int i)
     @ '' to today'' @ [CHR 0x27] @ ''s date after 3 attempts!''"

definition set_date_picker :: "datetime \<Rightarrow> nat \<Rightarrow> date_picker \<Rightarrow> effect list" where
  "set_date_picker now i dp =
     (let (ok, es) = date_attempts now (fst dp) (snd dp) 0 3
      in if ok then es else es @ [Print (date_warning i)])"

definition set_dates :: "datetime \<Rightarrow> date_picker list \<Rightarrow> effect list" where
  "set_dates now date_pickers =
     concat (map (\<lambda>(i, dp). set_date_picker now i dp) (enumerate 0 date_pickers))"

text \<open>The attempts made are the clicks into the year section.\<close>

fun is_click :: "effect \<Rightarrow> bool" where
  "is_click (Click x y) = True"
| "is_click e = False"

definition attempts :: "effect list \<Rightarrow> nat" where
  "attempts es = length (filter is_click es)"

section \<open>Extracting the image\<close>

text \<open>
  \<^verbatim>\<open>
  def extract_image():
      log_message("\n=== STEP 2: Extract Image ===")
      desktop = Desktop(backend="win32")
      pacs_win = None
      for _ in range(15):
          for w in desktop.windows():
              if w.is_visible() and w.window_text().startswith(...) and ...:
                  pacs_win = w
                  break
          if pacs_win: break
          time.sleep(1)
      if not pacs_win:
          log_message("Error: PACS viewer not found.")
          return False
      log_message("Found PACS viewer window", also_print=False)
      ... (focus, clear the clipboard, focus)
      send_keys("^i")
      img = None
      for attempt in range(3):
          ... (focus)
          send_keys("^c")
          img = ImageGrab.grabclipboard()
          if img is not None:
              break
          print(f"  Clipboard empty, retrying ({attempt + 1}/3)...")
      try:
          if img is None:
              print("Error: No image found in clipboard after 3 attempts.")
              return False
          img.save(TEMP_IMAGE_PATH, "PNG")
          return True
      except Exception as e:
          print(f"Error: Failed to grab image from clipboard: {e}")
          return False
  \<close>
  The desktop's part: \<open>pacs_at k\<close> says whether poll \<open>k\<close> sees the viewer window,
  \<open>clipboard k\<close> is what \<^verbatim>\<open>grabclipboard\<close> returns after the copy of attempt \<open>k\<close>
  (nothing, an image, or a list of file names, which has no \<^verbatim>\<open>save\<close>), \<open>save_ok\<close>
  says whether writing the file works.
\<close>

datatype clip = NoImage | AnImage image | FileNames

datatype editor = NoWindow | NoExamBox | ExamBox

record report_world =
  pacs_at :: "nat \<Rightarrow> bool"
  clipboard :: "nat \<Rightarrow> clip"
  save_ok :: bool
  endpoint_reply :: http_reply
  editor_state :: editor

definition retry_message :: "nat \<Rightarrow> string" where
  "retry_message attempt = ''  Clipboard empty, retrying ('' @ py_str (int attempt + 1) @ ''/3)...''"

fun copy_attempts :: "(nat \<Rightarrow> clip) \<Rightarrow> nat \<Rightarrow> nat \<Rightarrow> clip \<times> effect list" where
  "copy_attempts grab attempt 0 = (NoImage, [])"
| "copy_attempts grab attempt (Suc n) =
     (case grab attempt of
        NoImage \<Rightarrow>
          (let (img, es) = copy_attempts grab (Suc attempt) n
           in (img, Keys ''^c'' # Print (retry_message attempt) # es))
      | img \<Rightarrow> (img, [Keys ''^c'']))"

definition extract_image :: "report_world \<Rightarrow> bool \<times> image option \<times> effect list" where
  "extract_image w =
     (let started = [LogLine (NL # ''=== STEP 2: Extract Image ==='')]
      in if \<not> list_ex (pacs_at w) [0..<15]
         then (False, None, started @ [LogLine ''Error: PACS viewer not found.''])
         else
           (let (img, copied) = copy_attempts (clipboard w) 0 3;
                done = started @ [LogLine ''Found PACS viewer window'', ClearClipboard,
                                  Keys ''^i''] @ copied
            in case img of
                 NoImage \<Rightarrow>
                   (False, None,
                    done @ [Print ''Error: No image found in clipboard after 3 attempts.''])
               | AnImage i \<Rightarrow>
                   if save_ok w then (True, Some i, done @ [SaveImage i])
                   else (False, None, done @ [Print ''Error: Failed to grab image from clipboard''])
               | FileNames \<Rightarrow>
                   (False, None, done @ [Print ''Error: Failed to grab image from clipboard''])))"

section \<open>Entering the report\<close>

text \<open>
  \<^verbatim>\<open>
  def enter_report(findings):
      log_message("\n=== STEP 4: Enter Report ===")
      if not findings:
          print("[WARN] WARNING: Findings are empty!")
          return
      ...
      try:
          main_win = desktop_uia.window(title_re=...)
          ...
          app.set_focus()
      except Exception as e:
          print(f"Error finding window: {e}")
          return
      try:
          box = app.child_window(auto_id="EXAM")
          if box.exists():
              box.click_input()
              box.type_keys("^{END}")
              box.type_keys("{ENTER}" + escape_for_type_keys(findings), with_spaces=True)
          else:
              print("[FAIL] EXAM box not found")
      except Exception as e:
          print(f"[FAIL] Error entering report: {e}")
  \<close>
\<close>

definition enter_report :: "editor \<Rightarrow> string \<Rightarrow> effect list" where
  "enter_report ed findings =
     LogLine (NL # ''=== STEP 4: Enter Report ==='') #
     (if findings = [] then [Print ''[WARN] WARNING: Findings are empty!'']
      else (case ed of
              NoWindow \<Rightarrow> [Print ''Error finding window'']
            | NoExamBox \<Rightarrow> [Print ''[FAIL] EXAM box not found'']
            | ExamBox \<Rightarrow>
                [TypeKeys ''^{END}'', TypeKeys (''{ENTER}'' @ escape_for_type_keys findings)]))"

section \<open>The loop over the reports\<close>

text \<open>
  \<^verbatim>\<open>
  all_succeeded = True
  for report_num in range(num_reports):
      log_message(f"PROCESSING REPORT {report_num + 1} OF {num_reports}")
      if os.path.exists(TEMP_IMAGE_PATH):
          os.remove(TEMP_IMAGE_PATH)
      if extract_image():
          findings = analyze_image()
          if findings:
              enter_report(findings)
              log_message(f"\n[OK] Report {report_num + 1} completed!")
              if report_num < num_reports - 1:
                  send_keys("{F4}")
          else:
              log_message(f"[FAIL] Failed to analyze image for report {report_num + 1}")
              all_succeeded = False
              break
      else:
          log_message(f"[FAIL] Failed to extract image for report {report_num + 1}")
          all_succeeded = False
          break
  if all_succeeded:
      log_message(f"[OK] ALL {report_num + 1} REPORTS COMPLETED SUCCESSFULLY!")
  else:
      log_message(f"[FAIL] WORKFLOW FINISHED WITH ERRORS (completed {report_num} of {num_reports})")
  \<close>
  \<open>world k\<close> is what the outside world does while report \<open>k\<close> is processed.
  \<open>report_loop\<close> is the loop from \<open>report_num\<close> on: it returns \<open>all_succeeded\<close>, the
  last value of \<open>report_num\<close>, and the effects. \<open>num_reports\<close> is at least 1, which
  \<^const>\<open>parse_num_reports\<close> sees to. Log lines that are only a rule of \<^verbatim>\<open>=\<close> signs are
  left out.
\<close>

definition processing_message :: "nat \<Rightarrow> nat \<Rightarrow> string" where
  "processing_message report_num num_reports =
     ''PROCESSING REPORT '' @ py_str (int report_num + 1) @ '' OF '' @ py_str (int num_reports)"

definition completed_message :: "nat \<Rightarrow> string" where
  "completed_message report_num =
     NL # ''[OK] Report '' @ py_str (int report_num + 1) @ '' completed!''"

definition analyze_failed_message :: "nat \<Rightarrow> string" where
  "analyze_failed_message report_num =
     ''[FAIL] Failed to analyze image for report '' @ py_str (int report_num + 1)"

definition extract_failed_message :: "nat \<Rightarrow> string" where
  "extract_failed_message report_num =
     ''[FAIL] Failed to extract image for report '' @ py_str (int report_num + 1)"

definition all_completed_message :: "nat \<Rightarrow> string" where
  "all_completed_message report_num =
     ''[OK] ALL '' @ py_str (int report_num + 1) @ '' REPORTS COMPLETED SUCCESSFULLY!''"

definition finished_with_errors_message :: "nat \<Rightarrow> nat \<Rightarrow> string" where
  "finished_with_errors_message report_num num_reports =
     ''[FAIL] WORKFLOW FINISHED WITH ERRORS (completed '' @ py_str (int report_num)
     @ '' of '' @ py_str (int num_reports) @ '')''"

function report_loop ::
  "(image \<Rightarrow> image \<Rightarrow> image) \<Rightarrow> (nat \<Rightarrow> report_world) \<Rightarrow> nat \<Rightarrow> nat
     \<Rightarrow> bool \<times> nat \<times> effect list"
where
  "report_loop thumbnail world num_reports report_num =
     (let w = world report_num;
          begun = [LogLine (processing_message report_num num_reports), DeleteImage];
          (extracted, file, ex) = extract_image w
      in if extracted then
           (let (findings, an) = analyze_image thumbnail file (endpoint_reply w)
            in if findings \<noteq> None \<and> findings \<noteq> Some [] then
                 (let done = begun @ ex @ an @ enter_report (editor_state w) (the findings)
                        @ [LogLine (completed_message report_num)]
                  in if report_num + 1 < num_reports then
                       (let (ok, last_num, es) =
                              report_loop thumbnail world num_reports (report_num + 1)
                        in (ok, last_num, done @ [Keys ''{F4}''] @ es))
                     else (True, report_num, done))
               else (False, report_num,
                     begun @ ex @ an @ [LogLine (analyze_failed_message report_num)]))
         else (False, report_num,
               begun @ ex @ [LogLine (extract_failed_message report_num)]))"
  by pat_completeness auto
termination
  by (relation "measure (\<lambda>(thumbnail, world, num_reports, report_num). num_reports - report_num)")
    auto

declare report_loop.simps [simp del]

definition process_reports ::
  "(image \<Rightarrow> image \<Rightarrow> image) \<Rightarrow> (nat \<Rightarrow> report_world) \<Rightarrow> nat \<Rightarrow> bool \<times> effect list"
where
  "process_reports thumbnail world num_reports =
     (let (all_succeeded, report_num, es) = report_loop thumbnail world num_reports 0
      in (all_succeeded,
          es @ [LogLine (if all_succeeded then all_completed_message report_num
                         else finished_with_errors_message report_num num_reports)]))"

text \<open>
  How many reports the loop began to process: every pass removes the old image first.
  A report goes well when its image is extracted and the analysis returns findings.
\<close>

definition reports_begun :: "effect list \<Rightarrow> nat" where
  "reports_begun es = length (filter (\<lambda>e. e = DeleteImage) es)"

definition report_ok :: "(image \<Rightarrow> image \<Rightarrow> image) \<Rightarrow> report_world \<Rightarrow> bool" where
  "report_ok thumbnail w =
     (let (extracted, file, ex) = extract_image w;
          (findings, an) = analyze_image thumbnail file (endpoint_reply w)
      in extracted \<and> findings \<noteq> None \<and> findings \<noteq> Some [])"

text \<open>
  Two worlds to run the loop in: one where everything works, and the same one with a
  clipboard that stays empty.
\<close>

definition good_world :: report_world where
  "good_world =
     \<lparr>pacs_at = (\<lambda>k. True), clipboard = (\<lambda>k. AnImage (800, 600)), save_ok = True,
      endpoint_reply = Reply 200 (Some (JList [JDict [(''generated_text'', JStr ''Clear.'')]])),
      editor_state = ExamBox\<rparr>"

definition empty_clipboard_world :: report_world where
  "empty_clipboard_world = good_world\<lparr>clipboard := (\<lambda>k. NoImage)\<rparr>"

text \<open>Which effects are a request to the endpoint, a write to the report file, a write to the raw-output log.\<close>

fun is_http_post :: "effect \<Rightarrow> bool" where
  "is_http_post (HttpPost p img) = True"
| "is_http_post e = False"

fun is_report_write :: "effect \<Rightarrow> bool" where
  "is_report_write (ReportFile t) = True"
| "is_report_write e = False"

fun is_raw_log_write :: "effect \<Rightarrow> bool" where
  "is_raw_log_write RawLogHeader = True"
| "is_raw_log_write (RawLogText t) = True"
| "is_raw_log_write e = False"

section \<open>Properties of the string functions\<close>

lemma str_replace_single:
  "str_replace [a] [b] s = map (\<lambda>c. if c = a then b else c) s"
  by (induction s) auto

lemma replace_crlf_simps:
  "str_replace [CR, NL] [NL] [] = []"
  "str_replace [CR, NL] [NL] [c] = [c]"
  "str_replace [CR, NL] [NL] (c # d # cs) =
     (if c = CR \<and> d = NL then NL # str_replace [CR, NL] [NL] cs
      else c # str_replace [CR, NL] [NL] (d # cs))"
  by auto

section \<open>Properties of \<^const>\<open>prompt_for_date\<close> and \<^const>\<open>parse_num_reports\<close>\<close>

lemmas date_defs = prompt_for_date_def parse_date_def strip_def lstrip_def rstrip_def is_space_def
  int_or_raise_def py_int_def int_space_def parse_digits_def digit_val_def mk_datetime_def
  c_int_def days_in_month_def is_leap_def

lemma strip_map:
  assumes "\<And>c. is_space (f c) = is_space c"
  shows "strip (map f s) = map f (strip s)"
proof -
  have eq: "is_space \<circ> f = is_space" using assms by (simp add: fun_eq_iff)
  show ?thesis
    by (simp add: strip_def lstrip_def rstrip_def dropWhile_map rev_map eq)
qed

lemma dash_not_space: "is_space (if c = CHR ''-'' then CHR ''/'' else c) = is_space c"
  by (simp add: is_space_def)

lemma dash_twice:
  "(\<lambda>c. if c = CHR ''-'' then CHR ''/'' else c) \<circ> (\<lambda>c. if c = CHR ''-'' then CHR ''/'' else c)
     = (\<lambda>c. if c = CHR ''-'' then CHR ''/'' else c)"
  by (simp add: fun_eq_iff)

lemma parse_date_dash:
  "parse_date today (str_replace ''-'' ''/'' u) = parse_date today u"
  by (simp add: parse_date_def str_replace_single dash_twice)

lemma replace_dash_Nil: "str_replace ''-'' ''/'' x = [] \<longleftrightarrow> x = []"
  by (simp add: str_replace_single)

lemma prompt_dash: "prompt_for_date today (str_replace ''-'' ''/'' line) = prompt_for_date today line"
proof -
  have "strip (str_replace ''-'' ''/'' line) = str_replace ''-'' ''/'' (strip line)"
    unfolding str_replace_single by (rule strip_map) (rule dash_not_space)
  then show ?thesis
    by (simp add: prompt_for_date_def Let_def parse_date_dash replace_dash_Nil)
qed

lemma digit_val_Some: "digit_val c = Some d \<Longrightarrow> c \<in> set ''0123456789''"
  by (simp add: digit_val_def split: if_splits)

lemma digit_not_underscore: "digit_val c = Some d \<Longrightarrow> c \<noteq> CHR ''_''"
  by (drule digit_val_Some) auto

lemma digit_not_space: "digit_val c = Some d \<Longrightarrow> \<not> is_space c \<and> \<not> int_space c"
  by (drule digit_val_Some) (auto simp: is_space_def int_space_def)

lemma scan_digits_all:
  "\<forall>c \<in> set ds. digit_val c \<noteq> None \<Longrightarrow> prev \<noteq> CHR ''_'' \<Longrightarrow> \<exists>n. scan_digits acc prev ds = Some n"
proof (induction ds arbitrary: acc prev)
  case Nil
  then show ?case by simp
next
  case (Cons c ds)
  then obtain d where d: "digit_val c = Some d" by auto
  then have c: "c \<noteq> CHR ''_''" by (rule digit_not_underscore)
  from Cons.prems have "\<forall>c \<in> set ds. digit_val c \<noteq> None" by simp
  from Cons.IH [OF this c] obtain n where
    "scan_digits (10 * acc + d) c ds = Some n" by blast
  with c d show ?case by simp
qed

lemma parse_digits_all:
  assumes "ds \<noteq> []" "\<forall>c \<in> set ds. digit_val c \<noteq> None"
  shows "\<exists>n. parse_digits ds = Some n"
proof -
  from assms(1) obtain c cs where ds: "ds = c # cs" by (cases ds) auto
  with assms(2) obtain d where "digit_val c = Some d" by auto
  then have c: "c \<noteq> CHR ''_''" by (rule digit_not_underscore)
  have "CHR 0x00 \<noteq> CHR ''_''" by simp
  from scan_digits_all [OF assms(2) this] obtain n where
    "scan_digits 0 (CHR 0x00) ds = Some n" by blast
  with c ds show ?thesis by (simp add: parse_digits_def)
qed

lemma dropWhile_none: "\<forall>c \<in> set xs. \<not> P c \<Longrightarrow> dropWhile P xs = xs"
  by (cases xs) auto

lemma py_int_minus_digits:
  assumes "ds \<noteq> []" "\<forall>c \<in> set ds. digit_val c \<noteq> None"
  shows "\<exists>n. py_int (CHR ''-'' # ds) = Some (- int n)"
proof -
  from assms(2) have ns: "\<forall>c \<in> set (rev ds). \<not> int_space c"
    using digit_not_space by auto
  from parse_digits_all [OF assms] obtain n where "parse_digits ds = Some n" by blast
  then have "py_int (CHR ''-'' # ds) = Some (- int n)"
    by (simp add: py_int_def int_space_def dropWhile_none [OF ns])
  then show ?thesis by blast
qed

lemma strip_minus_digits:
  assumes "\<forall>c \<in> set ds. digit_val c \<noteq> None"
  shows "strip (CHR ''-'' # ds) = CHR ''-'' # ds"
proof -
  from assms have "\<forall>c \<in> set (rev (CHR ''-'' # ds)). \<not> is_space c"
    using digit_not_space by (auto simp: is_space_def)
  then have "dropWhile is_space (rev (CHR ''-'' # ds)) = rev (CHR ''-'' # ds)"
    by (rule dropWhile_none)
  moreover have "dropWhile is_space (CHR ''-'' # ds) = CHR ''-'' # ds"
    by (simp add: is_space_def)
  ultimately show ?thesis by (simp add: strip_def lstrip_def rstrip_def)
qed

lemma negative_numeral_one:
  assumes "ds \<noteq> []" "\<forall>c \<in> set ds. digit_val c \<noteq> None"
  shows "parse_num_reports (CHR ''-'' # ds) = 1"
proof -
  from py_int_minus_digits [OF assms] obtain n where "py_int (CHR ''-'' # ds) = Some (- int n)"
    by blast
  then show ?thesis by (simp add: parse_num_reports_def strip_minus_digits [OF assms(2)])
qed

lemma parse_digits_no_digit:
  assumes "\<forall>c \<in> set v. digit_val c = None"
  shows "parse_digits v = None"
  using assms by (cases v) (auto simp: parse_digits_def)

lemma py_int_no_digit:
  assumes "\<forall>c \<in> set s. digit_val c = None"
  shows "py_int s = None"
proof -
  define t where "t = dropWhile int_space s"
  define u where "u = (case t of c # r \<Rightarrow> if c = CHR ''-'' \<or> c = CHR ''+'' then r else t | [] \<Rightarrow> t)"
  have "set t \<subseteq> set s" unfolding t_def by (rule set_dropWhileD [THEN subsetI]) 
  moreover have "set u \<subseteq> set t" unfolding u_def by (auto split: list.splits)
  moreover have "set (rev (dropWhile int_space (rev u))) \<subseteq> set u"
    using set_dropWhileD [of _ int_space "rev u"] by auto
  ultimately have "\<forall>c \<in> set (rev (dropWhile int_space (rev u))). digit_val c = None"
    using assms by blast
  then have "parse_digits (rev (dropWhile int_space (rev u))) = None"
    by (rule parse_digits_no_digit)
  then show ?thesis
    unfolding py_int_def Let_def t_def [symmetric] u_def by (auto split: list.splits)
qed

lemma no_digit_one:
  assumes "\<forall>c \<in> set line. digit_val c = None"
  shows "parse_num_reports line = 1"
proof -
  have "set (strip line) \<subseteq> set line"
    unfolding strip_def lstrip_def rstrip_def
    using set_dropWhileD [of _ is_space "rev (dropWhile is_space line)"] set_dropWhileD [of _ is_space line]
    by auto
  with assms have "\<forall>c \<in> set (strip line). digit_val c = None" by blast
  then have "py_int (strip line) = None" by (rule py_int_no_digit)
  then show ?thesis by (simp add: parse_num_reports_def)
qed


text \<open>
  C3. The date parser maps \<^verbatim>\<open>2024/03/05\<close> to year 2024, month 3, day 5; it maps
  \<^verbatim>\<open>03/05\<close> to month 3, day 5 of the current year (the year of a \<^verbatim>\<open>datetime\<close> lies
  in 1..9999); on empty or blank input it returns today's date; and on malformed input,
  \<^verbatim>\<open>abcd\<close> for one, and whenever anything in the parse raises, it returns today's date:
  the function is total, no exception leaves it.
\<close>

theorem prompt_for_date_cases:
  "prompt_for_date today ''2024/03/05'' =
     \<lparr>year = 2024, month = 3, day = 5, hour = 0, minute = 0, second = 0, microsecond = 0\<rparr>
   \<and> (1 \<le> year today \<and> year today \<le> 9999 \<longrightarrow>
        prompt_for_date today ''03/05'' =
          \<lparr>year = year today, month = 3, day = 5, hour = 0, minute = 0, second = 0,
            microsecond = 0\<rparr>)
   \<and> prompt_for_date today [] = today
   \<and> (strip line = [] \<longrightarrow> prompt_for_date today line = today)
   \<and> prompt_for_date today ''abcd'' = today
   \<and> (\<forall>e. parse_date today (strip line) = Inl e \<longrightarrow> prompt_for_date today line = today)"
proof -
  have full: "prompt_for_date today ''2024/03/05'' =
     \<lparr>year = 2024, month = 3, day = 5, hour = 0, minute = 0, second = 0, microsecond = 0\<rparr>"
    by (simp add: date_defs)
  have short: "1 \<le> year today \<and> year today \<le> 9999 \<longrightarrow>
      prompt_for_date today ''03/05'' =
        \<lparr>year = year today, month = 3, day = 5, hour = 0, minute = 0, second = 0,
          microsecond = 0\<rparr>"
    by (simp add: date_defs)
  have empty: "prompt_for_date today [] = today"
    by (simp add: date_defs)
  have blank: "strip line = [] \<longrightarrow> prompt_for_date today line = today"
    by (simp add: prompt_for_date_def)
  have abcd: "prompt_for_date today ''abcd'' = today"
    by (simp add: date_defs)
  have raised: "\<forall>e. parse_date today (strip line) = Inl e \<longrightarrow> prompt_for_date today line = today"
    by (simp add: prompt_for_date_def Let_def)
  from full short empty blank abcd raised show ?thesis by blast
qed

theorem prompt_for_date_cases_witness:
  "prompt_for_date \<lparr>year = 2026, month = 11, day = 6, hour = 9, minute = 30, second = 1,
       microsecond = 5\<rparr> ''03/05'' =
     \<lparr>year = 2026, month = 3, day = 5, hour = 0, minute = 0, second = 0, microsecond = 0\<rparr>
   \<and> strip [CHR '' '', CHR 0x09] = []
   \<and> prompt_for_date \<lparr>year = 2026, month = 11, day = 6, hour = 9, minute = 30, second = 1,
       microsecond = 5\<rparr> [CHR '' '', CHR 0x09] =
     \<lparr>year = 2026, month = 11, day = 6, hour = 9, minute = 30, second = 1, microsecond = 5\<rparr>
   \<and> parse_date \<lparr>year = 2026, month = 11, day = 6, hour = 9, minute = 30, second = 1,
       microsecond = 5\<rparr> (strip ''2023/02/29'') = Inl ValueError
   \<and> prompt_for_date \<lparr>year = 2026, month = 11, day = 6, hour = 9, minute = 30, second = 1,
       microsecond = 5\<rparr> ''2023/02/29'' =
     \<lparr>year = 2026, month = 11, day = 6, hour = 9, minute = 30, second = 1, microsecond = 5\<rparr>"
proof -
  let ?now = "\<lparr>year = 2026, month = 11, day = 6, hour = 9, minute = 30, second = 1,
    microsecond = 5\<rparr>"
  have blank: "strip [CHR '' '', CHR 0x09] = []"
    by (simp add: strip_def lstrip_def rstrip_def is_space_def)
  have bad: "parse_date ?now (strip ''2023/02/29'') = Inl ValueError"
    by (simp add: date_defs)
  from prompt_for_date_cases [of ?now "[CHR '' '', CHR 0x09]"] blank
    prompt_for_date_cases [of ?now "''2023/02/29''"] bad
  show ?thesis by simp
qed

text \<open>
  C9. Dashes are read as slashes: \<^verbatim>\<open>2024-03-05\<close> parses to year 2024, month 3, day 5,
  exactly as \<^verbatim>\<open>2024/03/05\<close> does, and for every input line the result is the one the
  same line gives with each \<^verbatim>\<open>-\<close> written as \<^verbatim>\<open>/\<close>.
\<close>

theorem prompt_for_date_dashes:
  "prompt_for_date today ''2024-03-05'' =
     \<lparr>year = 2024, month = 3, day = 5, hour = 0, minute = 0, second = 0, microsecond = 0\<rparr>
   \<and> prompt_for_date today ''2024-03-05'' = prompt_for_date today ''2024/03/05''
   \<and> prompt_for_date today line = prompt_for_date today (str_replace ''-'' ''/'' line)"
proof -
  have dashed: "prompt_for_date today ''2024-03-05'' =
     \<lparr>year = 2024, month = 3, day = 5, hour = 0, minute = 0, second = 0, microsecond = 0\<rparr>"
    by (simp add: date_defs)
  have slashed: "prompt_for_date today ''2024/03/05'' =
     \<lparr>year = 2024, month = 3, day = 5, hour = 0, minute = 0, second = 0, microsecond = 0\<rparr>"
    by (simp add: date_defs)
  from dashed slashed prompt_dash [of today line] show ?thesis by simp
qed

theorem prompt_for_date_dashes_witness:
  "prompt_for_date \<lparr>year = 2026, month = 11, day = 6, hour = 9, minute = 30, second = 1,
       microsecond = 5\<rparr> ''7-4'' =
   prompt_for_date \<lparr>year = 2026, month = 11, day = 6, hour = 9, minute = 30, second = 1,
       microsecond = 5\<rparr> ''7/4''
   \<and> prompt_for_date \<lparr>year = 2026, month = 11, day = 6, hour = 9, minute = 30, second = 1,
       microsecond = 5\<rparr> ''7/4'' =
     \<lparr>year = 2026, month = 7, day = 4, hour = 0, minute = 0, second = 0, microsecond = 0\<rparr>"
proof -
  let ?now = "\<lparr>year = 2026, month = 11, day = 6, hour = 9, minute = 30, second = 1,
    microsecond = 5\<rparr>"
  have r: "str_replace ''-'' ''/'' ''7-4'' = ''7/4''"
    by simp
  have v: "prompt_for_date ?now ''7/4'' =
     \<lparr>year = 2026, month = 7, day = 4, hour = 0, minute = 0, second = 0, microsecond = 0\<rparr>"
    by (simp add: date_defs)
  from prompt_for_date_dashes [of ?now "''7-4''"] r v show ?thesis by simp
qed

text \<open>
  C7. The report count: \<^verbatim>\<open>3\<close> gives 3; \<^verbatim>\<open>0\<close> gives 1; every negative integer string
  (a minus sign and decimal digits, and any input that \<^verbatim>\<open>int\<close> reads as a number
  below 1) gives 1; every input that \<^verbatim>\<open>int\<close> refuses gives 1, and so does every input
  without a digit. The function is total: the \<^verbatim>\<open>ValueError\<close> is caught.
\<close>

theorem parse_num_reports_cases:
  "parse_num_reports ''3'' = 3
   \<and> parse_num_reports ''0'' = 1
   \<and> (ds \<noteq> [] \<and> (\<forall>c \<in> set ds. digit_val c \<noteq> None) \<longrightarrow>
        parse_num_reports (CHR ''-'' # ds) = 1)
   \<and> (\<forall>n. py_int (strip line) = Some n \<and> n < 1 \<longrightarrow> parse_num_reports line = 1)
   \<and> (py_int (strip line) = None \<longrightarrow> parse_num_reports line = 1)
   \<and> ((\<forall>c \<in> set line. digit_val c = None) \<longrightarrow> parse_num_reports line = 1)"
proof -
  have three: "parse_num_reports ''3'' = 3"
    by (simp add: parse_num_reports_def date_defs)
  have zero: "parse_num_reports ''0'' = 1"
    by (simp add: parse_num_reports_def date_defs)
  have low: "\<forall>n. py_int (strip line) = Some n \<and> n < 1 \<longrightarrow> parse_num_reports line = 1"
    by (simp add: parse_num_reports_def)
  have refused: "py_int (strip line) = None \<longrightarrow> parse_num_reports line = 1"
    by (simp add: parse_num_reports_def)
  from three zero low refused negative_numeral_one [of ds] no_digit_one [of line]
  show ?thesis by blast
qed

theorem parse_num_reports_cases_witness:
  "parse_num_reports ''-42'' = 1
   \<and> py_int (strip ''-0'') = Some 0 \<and> parse_num_reports ''-0'' = 1
   \<and> py_int (strip ''3.5'') = None \<and> parse_num_reports ''3.5'' = 1
   \<and> parse_num_reports ''abc'' = 1"
proof -
  have digits: "''42'' \<noteq> [] \<and> (\<forall>c \<in> set ''42''. digit_val c \<noteq> None)"
    by (simp add: digit_val_def)
  have zero: "py_int (strip ''-0'') = Some 0"
    by (simp add: date_defs)
  have frac: "py_int (strip ''3.5'') = None"
    by (simp add: date_defs)
  have letters: "\<forall>c \<in> set ''abc''. digit_val c = None"
    by (simp add: digit_val_def)
  from parse_num_reports_cases [of "''42''" "''-0''"] parse_num_reports_cases [of "''42''" "''3.5''"]
    parse_num_reports_cases [of "''42''" "''abc''"] digits zero frac letters
  show ?thesis by simp
qed

section \<open>Properties of the inference client\<close>

lemmas strip_defs = strip_def lstrip_def rstrip_def is_space_def

lemma str_split_nonempty: "str_split sep s \<noteq> []"
  by (induction sep s rule: str_split.induct) (auto split: list.splits)

lemma first_paragraph_Nil: "first_paragraph [] = []"
  by (simp add: first_paragraph_def)

lemma first_paragraph_Cons:
  "first_paragraph (c # cs) =
     (if prefix [NL, NL] (c # cs) then [] else c # first_paragraph cs)"
  using str_split_nonempty [of "[NL, NL]" cs]
  by (auto simp: first_paragraph_def split: list.splits)

lemma first_paragraph_prefix: "prefix (first_paragraph c) c"
  by (induction c) (simp_all add: first_paragraph_Nil first_paragraph_Cons)

lemma first_paragraph_first:
  "k < length (first_paragraph c) \<Longrightarrow> \<not> prefix [NL, NL] (drop k c)"
proof (induction c arbitrary: k)
  case Nil
  then show ?case by (simp add: first_paragraph_Nil)
next
  case (Cons a c)
  show ?case
  proof (cases "prefix [NL, NL] (a # c)")
    case True
    then have "first_paragraph (a # c) = []" by (auto simp add: first_paragraph_Cons)
    with Cons.prems show ?thesis by simp
  next
    case False
    show ?thesis
    proof (cases k)
      case 0
      with False show ?thesis by simp
    next
      case (Suc j)
      from False have "first_paragraph (a # c) = a # first_paragraph c"
        by (auto simp add: first_paragraph_Cons)
      with Cons.prems Suc have "j < length (first_paragraph c)"
        by simp
      then have "\<not> prefix [NL, NL] (drop j c)" by (rule Cons.IH)
      with Suc show ?thesis by simp
    qed
  qed
qed

lemma first_paragraph_end:
  "first_paragraph c = c \<or> prefix [NL, NL] (drop (length (first_paragraph c)) c)"
proof (induction c)
  case Nil
  then show ?case by (simp add: first_paragraph_Nil)
next
  case (Cons a c)
  then show ?case by (cases "prefix [NL, NL] (a # c)") (auto simp add: first_paragraph_Cons)
qed

lemma str_contains_sublist: "str_contains sub s \<longleftrightarrow> sublist sub s"
  by (induction s) (auto simp: sublist_Cons_right)

lemma strip_sublist: "sublist (strip s) s"
proof -
  have "suffix (dropWhile is_space s) s" by (rule suffix_dropWhile)
  moreover have "prefix (rev (dropWhile is_space (rev (dropWhile is_space s)))) (dropWhile is_space s)"
    by (metis suffix_dropWhile suffix_to_prefix rev_rev_ident)
  ultimately show ?thesis
    unfolding strip_def lstrip_def rstrip_def
    by (meson prefix_imp_sublist suffix_imp_sublist sublist_order.order_trans)
qed

lemma first_paragraph_no_blank: "\<not> sublist [NL, NL] (first_paragraph c)"
proof
  assume "sublist [NL, NL] (first_paragraph c)"
  then obtain ps ss where fp: "first_paragraph c = ps @ [NL, NL] @ ss"
    by (auto simp: sublist_def)
  from first_paragraph_prefix [of c] obtain r where c: "c = first_paragraph c @ r"
    by (auto simp: prefix_def)
  have "length ps < length (first_paragraph c)" by (simp add: fp)
  then have "\<not> prefix [NL, NL] (drop (length ps) c)" by (rule first_paragraph_first)
  moreover have "drop (length ps) c = [NL, NL] @ ss @ r"
    by (subst c) (simp add: fp)
  ultimately show False by simp
qed

lemma clean_response_no_blank: "\<not> str_contains [NL, NL] (clean_response p content)"
proof -
  have "sublist (clean_response p content) (first_paragraph (strip_prompt p content))"
    unfolding clean_response_def by (rule strip_sublist)
  then show ?thesis
    unfolding str_contains_sublist
    using first_paragraph_no_blank sublist_order.order_trans by blast
qed

lemma clean_response_echo: "clean_response p (p @ rest) = strip (first_paragraph (strip rest))"
  by (simp add: clean_response_def strip_prompt_def)

lemma clean_response_plain:
  "\<not> prefix p content \<Longrightarrow> clean_response p content = strip (first_paragraph content)"
  by (simp add: clean_response_def strip_prompt_def)


lemma findings_example:
  "strip (first_paragraph (strip (''Findings: normal.'' @ [NL, NL] @ ''Findings: normal.'')))
     = ''Findings: normal.''"
  by (simp add: strip_defs first_paragraph_def)

lemma analyze_image_text:
  assumes "extract_content result = Inr (JStr content)" and "\<not> (400 \<le> code \<and> code < 600)"
  shows "fst (analyze_image thumbnail (Some img) (Reply code (Some result)))
    = Some (strip (clean_response prompt content))"
  using assms by (simp add: analyze_image_def Let_def)

text \<open>
  C2. A response that starts with the prompt, followed by \<^verbatim>\<open>Findings: normal.\<close>, a
  blank line and \<^verbatim>\<open>Findings: normal.\<close> again, is cleaned to exactly
  \<^verbatim>\<open>Findings: normal.\<close> (for the script's prompt and for any other, and so
  \<^const>\<open>analyze_image\<close> returns it). In general a prompt at the start of the response
  is removed, and what is kept is the text before the first \<^verbatim>\<open>\n\n\<close>, stripped: the
  first paragraph is a prefix of the text, no \<^verbatim>\<open>\n\n\<close> starts inside it, it ends at a
  \<^verbatim>\<open>\n\n\<close> or at the end of the text, and the result holds no \<^verbatim>\<open>\n\n\<close>.
\<close>

theorem clean_response_first_paragraph:
  "clean_response p (p @ ''Findings: normal.'' @ [NL, NL] @ ''Findings: normal.'')
     = ''Findings: normal.''
   \<and> clean_response prompt (prompt @ ''Findings: normal.'' @ [NL, NL] @ ''Findings: normal.'')
     = ''Findings: normal.''
   \<and> fst (analyze_image thumbnail (Some img) (Reply 200 (Some (JList [JDict
         [(''generated_text'',
           JStr (prompt @ ''Findings: normal.'' @ [NL, NL] @ ''Findings: normal.''))]]))))
     = Some ''Findings: normal.''
   \<and> clean_response p (p @ rest) = strip (first_paragraph (strip rest))
   \<and> (\<not> prefix p content \<longrightarrow> clean_response p content = strip (first_paragraph content))
   \<and> prefix (first_paragraph c) c
   \<and> (\<forall>k < length (first_paragraph c). \<not> prefix [NL, NL] (drop k c))
   \<and> (first_paragraph c = c \<or> prefix [NL, NL] (drop (length (first_paragraph c)) c))
   \<and> \<not> str_contains [NL, NL] (clean_response p content)"
proof -
  have any: "clean_response q (q @ ''Findings: normal.'' @ [NL, NL] @ ''Findings: normal.'')
      = ''Findings: normal.''" for q
    using findings_example by (simp only: clean_response_echo)
  have "extract_content (JList [JDict [(''generated_text'',
        JStr (prompt @ ''Findings: normal.'' @ [NL, NL] @ ''Findings: normal.''))]])
      = Inr (JStr (prompt @ ''Findings: normal.'' @ [NL, NL] @ ''Findings: normal.''))"
    by (simp add: dict_get_def)
  then have sent: "fst (analyze_image thumbnail (Some img) (Reply 200 (Some (JList [JDict
         [(''generated_text'',
           JStr (prompt @ ''Findings: normal.'' @ [NL, NL] @ ''Findings: normal.''))]]))))
     = Some (strip (clean_response prompt
         (prompt @ ''Findings: normal.'' @ [NL, NL] @ ''Findings: normal.'')))"
    by (rule analyze_image_text) simp
  have "strip ''Findings: normal.'' = ''Findings: normal.''"
    by (simp add: strip_defs)
  with sent have returned: "fst (analyze_image thumbnail (Some img) (Reply 200 (Some (JList [JDict
         [(''generated_text'',
           JStr (prompt @ ''Findings: normal.'' @ [NL, NL] @ ''Findings: normal.''))]]))))
     = Some ''Findings: normal.''"
    by (simp only: any)
  have first: "\<forall>k < length (first_paragraph c). \<not> prefix [NL, NL] (drop k c)"
    using first_paragraph_first by blast
  from any [of p] any [of prompt] returned clean_response_echo [of p rest]
    clean_response_plain [of p content] first_paragraph_prefix [of c] first
    first_paragraph_end [of c] clean_response_no_blank [of p content]
  show ?thesis by blast
qed

theorem clean_response_first_paragraph_witness:
  "\<not> prefix ''Describe:'' ''Lungs clear.''
   \<and> clean_response ''Describe:'' ''Lungs clear.'' = ''Lungs clear.''
   \<and> clean_response ''Describe:'' (''Describe:'' @ '' No effusion. '' @ [NL, NL] @ ''No effusion.'')
       = ''No effusion.''
   \<and> first_paragraph (''abc'' @ [NL, NL, NL] @ ''def'') = ''abc''
   \<and> (1::nat) < length (first_paragraph (''abc'' @ [NL, NL, NL] @ ''def''))
   \<and> \<not> prefix [NL, NL] (drop 1 (''abc'' @ [NL, NL, NL] @ ''def''))"
proof -
  have np: "\<not> prefix ''Describe:'' ''Lungs clear.''"
    by simp
  have plain: "strip (first_paragraph ''Lungs clear.'') = ''Lungs clear.''"
    by (simp add: strip_defs first_paragraph_def)
  have echo: "strip (first_paragraph (strip ('' No effusion. '' @ [NL, NL] @ ''No effusion.'')))
      = ''No effusion.''"
    by (simp add: strip_defs first_paragraph_def)
  have fp: "first_paragraph (''abc'' @ [NL, NL, NL] @ ''def'') = ''abc''"
    by (simp add: first_paragraph_def)
  from clean_response_first_paragraph
    [of "''Describe:''" "\<lambda>b i. b" "(1, 1)" "'' No effusion. '' @ [NL, NL] @ ''No effusion.''"
      "''Lungs clear.''" "''abc'' @ [NL, NL, NL] @ ''def''"]
    np plain echo fp
  show ?thesis by simp
qed

text \<open>Where the parser does extract the text: what each branch reads.\<close>

lemma extract_content_reads:
  "(map_of d ''generated_text'' = Some (JStr s) \<longrightarrow>
      extract_content (JList (JDict d # others)) = Inr (JStr s))
   \<and> (map_of d ''generated_text'' = Some (JStr s) \<and> s \<noteq> [] \<longrightarrow>
        extract_content (JDict d) = Inr (JStr s))
   \<and> ((map_of d ''generated_text'' = None \<or> map_of d ''generated_text'' = Some (JStr []))
        \<and> map_of d ''text'' = Some (JStr s) \<longrightarrow>
        extract_content (JDict d) = Inr (JStr s))"
  by (auto simp: dict_get_def)

lemma clean_response_prompt_examples:
  "clean_response prompt [] = []"
  "clean_response prompt ''Findings: normal.'' = ''Findings: normal.''"
  by (simp_all add: clean_response_def strip_prompt_def prompt_def first_paragraph_def strip_defs)

text \<open>
  C5. The parser accepts both shapes, and from a single object it extracts the text under
  either key. From a list it does not: the list branch reads \<^verbatim>\<open>generated_text\<close> of the
  first object only and lacks the fall-back to \<^verbatim>\<open>text\<close> that the single-object branch
  has. For the response \<^verbatim>\<open>[{"text": "Findings: normal."}]\<close> the content is the empty
  string and \<^const>\<open>analyze_image\<close> returns empty findings, while the same object on its
  own gives \<^verbatim>\<open>Findings: normal.\<close>.
\<close>

theorem extract_content_list_misses_text:
  "extract_content (JList [JDict [(''text'', JStr ''Findings: normal.'')]]) = Inr (JStr [])
   \<and> extract_content (JDict [(''text'', JStr ''Findings: normal.'')])
       = Inr (JStr ''Findings: normal.'')
   \<and> fst (analyze_image thumbnail (Some img)
         (Reply 200 (Some (JList [JDict [(''text'', JStr ''Findings: normal.'')]])))) = Some []
   \<and> fst (analyze_image thumbnail (Some img)
         (Reply 200 (Some (JDict [(''text'', JStr ''Findings: normal.'')]))))
       = Some ''Findings: normal.''"
proof -
  have in_list: "extract_content (JList [JDict [(''text'', JStr ''Findings: normal.'')]])
      = Inr (JStr [])"
    by (simp add: dict_get_def)
  have alone: "extract_content (JDict [(''text'', JStr ''Findings: normal.'')])
      = Inr (JStr ''Findings: normal.'')"
    by (simp add: dict_get_def)
  have s1: "strip [] = []" and s2: "strip ''Findings: normal.'' = ''Findings: normal.''"
    by (simp_all add: strip_defs)
  from in_list have "fst (analyze_image thumbnail (Some img)
         (Reply 200 (Some (JList [JDict [(''text'', JStr ''Findings: normal.'')]]))))
      = Some (strip (clean_response prompt []))"
    by (rule analyze_image_text) simp
  then have empty: "fst (analyze_image thumbnail (Some img)
         (Reply 200 (Some (JList [JDict [(''text'', JStr ''Findings: normal.'')]])))) = Some []"
    by (simp only: clean_response_prompt_examples s1)
  from alone have "fst (analyze_image thumbnail (Some img)
         (Reply 200 (Some (JDict [(''text'', JStr ''Findings: normal.'')]))))
      = Some (strip (clean_response prompt ''Findings: normal.''))"
    by (rule analyze_image_text) simp
  then have found: "fst (analyze_image thumbnail (Some img)
         (Reply 200 (Some (JDict [(''text'', JStr ''Findings: normal.'')]))))
       = Some ''Findings: normal.''"
    by (simp only: clean_response_prompt_examples s2)
  from in_list alone empty found show ?thesis by blast
qed

text \<open>
  C10. When no file is at the image path, \<^const>\<open>analyze_image\<close> returns \<open>None\<close> at
  once: its one effect is the line in the workflow log that opens the step; it sends no
  request and writes neither the report file nor the raw-output log, whatever the
  endpoint would have answered. (With a file there, a request is sent.)
\<close>

theorem analyze_image_without_file:
  "analyze_image thumbnail None reply = (None, [LogLine (NL # ''=== STEP 3: AI Analysis ==='')])
   \<and> \<not> list_ex is_http_post (snd (analyze_image thumbnail None reply))
   \<and> \<not> list_ex is_report_write (snd (analyze_image thumbnail None reply))
   \<and> \<not> list_ex is_raw_log_write (snd (analyze_image thumbnail None reply))
   \<and> list_ex is_http_post (snd (analyze_image thumbnail (Some img) reply))"
proof -
  have none: "analyze_image thumbnail None reply
      = (None, [LogLine (NL # ''=== STEP 3: AI Analysis ==='')])"
    by (simp add: analyze_image_def)
  have some: "list_ex is_http_post (snd (analyze_image thumbnail (Some img) reply))"
    by (auto simp: analyze_image_def Let_def split: http_reply.splits option.splits
        sum.splits json.splits)
  from none some show ?thesis by simp
qed

theorem analyze_image_without_file_witness:
  "analyze_image (\<lambda>b i. b) None (Reply 200 (Some (JList [JDict [(''generated_text'', JStr ''Clear.'')]])))
     = (None, [LogLine (NL # ''=== STEP 3: AI Analysis ==='')])
   \<and> snd (analyze_image (\<lambda>b i. b) (Some (2000, 1500))
         (Reply 200 (Some (JList [JDict [(''generated_text'', JStr ''Clear.'')]]))))
     = [LogLine (NL # ''=== STEP 3: AI Analysis ===''), HttpPost prompt (1024, 1024),
        RawLogHeader, RawLogText ''Clear.'', ReportFile ''Clear.'']"
proof -
  have cr: "clean_response prompt ''Clear.'' = ''Clear.''"
    by (simp add: clean_response_def strip_prompt_def prompt_def first_paragraph_def strip_defs)
  have "snd (analyze_image (\<lambda>b i. b) (Some (2000, 1500))
         (Reply 200 (Some (JList [JDict [(''generated_text'', JStr ''Clear.'')]]))))
     = [LogLine (NL # ''=== STEP 3: AI Analysis ===''), HttpPost prompt (1024, 1024),
        RawLogHeader, RawLogText ''Clear.'', ReportFile ''Clear.'']"
    by (simp add: analyze_image_def resize_for_upload_def dict_get_def Let_def cr strip_defs)
  with analyze_image_without_file [of "\<lambda>b i. b" "Reply 200 (Some (JList [JDict [(''generated_text'', JStr ''Clear.'')]]))" "(2000, 1500)"]
  show ?thesis by simp
qed

section \<open>Properties of the date setting\<close>

lemma date_attempts_3:
  "date_attempts now r shown 0 3 =
     (if date_matches (expected_date now) (shown 0) then (True, type_date now r)
      else if date_matches (expected_date now) (shown 1)
        then (True, type_date now r @ type_date now r)
      else if date_matches (expected_date now) (shown 2)
        then (True, type_date now r @ type_date now r @ type_date now r)
      else (False, type_date now r @ type_date now r @ type_date now r))"
  by (simp add: numeral_3_eq_3 numeral_2_eq_2)

lemma attempts_type_date: "attempts (type_date now r) = 1"
  by (simp add: attempts_def type_date_def)

lemma attempts_append: "attempts (a @ b) = attempts a + attempts b"
  by (simp add: attempts_def)

lemma attempts_warning: "attempts [Print m] = 0"
  by (simp add: attempts_def)

lemma no_warning_type_date: "Print m \<notin> set (type_date now r)"
  by (simp add: type_date_def)

text \<open>The four ways the three attempts can go.\<close>

lemma set_date_picker_cases:
  "set_date_picker now i dp =
     (let T = type_date now (fst dp); e = expected_date now in
      if date_matches e (snd dp 0) then T
      else if date_matches e (snd dp 1) then T @ T
      else if date_matches e (snd dp 2) then T @ T @ T
      else T @ T @ T @ [Print (date_warning i)])"
  by (simp add: set_date_picker_def date_attempts_3 Let_def)

lemma set_date_picker_at_most_3: "attempts (set_date_picker now i dp) \<le> 3"
  by (simp add: set_date_picker_cases Let_def attempts_append attempts_type_date attempts_warning)

lemma set_date_picker_stops:
  assumes "k < 3" "date_matches (expected_date now) (snd dp k)"
    "\<forall>j<k. \<not> date_matches (expected_date now) (snd dp j)"
  shows "attempts (set_date_picker now i dp) = k + 1
    \<and> Print (date_warning i) \<notin> set (set_date_picker now i dp)"
proof -
  from assms(1) consider "k = 0" | "k = 1" | "k = 2" by linarith
  then show ?thesis
  proof cases
    case 1
    with assms show ?thesis
      by (simp add: set_date_picker_cases Let_def attempts_type_date no_warning_type_date)
  next
    case 2
    with assms show ?thesis
      by (simp add: set_date_picker_cases Let_def attempts_append attempts_type_date
          no_warning_type_date)
  next
    case 3
    with assms have "\<not> date_matches (expected_date now) (snd dp 0)"
      "\<not> date_matches (expected_date now) (snd dp 1)"
      by simp_all
    with 3 assms(2) show ?thesis
      by (simp add: set_date_picker_cases Let_def attempts_append attempts_type_date
          no_warning_type_date)
  qed
qed

lemma set_date_picker_gives_up:
  assumes "\<forall>j<3. \<not> date_matches (expected_date now) (snd dp j)"
  shows "attempts (set_date_picker now i dp) = 3
    \<and> last (set_date_picker now i dp) = Print (date_warning i)"
proof -
  from assms have "\<not> date_matches (expected_date now) (snd dp 0)"
    "\<not> date_matches (expected_date now) (snd dp 1)"
    "\<not> date_matches (expected_date now) (snd dp 2)"
    by simp_all
  then show ?thesis
    by (simp add: set_date_picker_cases Let_def attempts_append attempts_type_date
        attempts_warning)
qed

lemma set_dates_Cons:
  "set_dates now (dp # dps) = set_date_picker now 0 dp
     @ concat (map (\<lambda>(i, dp). set_date_picker now i dp) (enumerate 1 dps))"
  by (simp add: set_dates_def)

text \<open>
  C6. For every date picker the click-and-type sequence is made at most 3 times. It is
  not made again once the text read back matches the expected date (holds it, or is
  it): with the first match after attempt \<open>k\<close> there are \<open>k + 1\<close> attempts and no
  warning. The expected text is un-padded, \<^verbatim>\<open>2024/3/5\<close> for 5 March 2024, and a
  control that shows exactly it matches. When all 3 attempts fail the check, the last
  thing done for the control is the warning, printed, not raised, and the loop goes on
  to the next control.
\<close>

theorem set_date_picker_retries:
  "attempts (set_date_picker now i dp) \<le> 3
   \<and> (k < 3 \<and> date_matches (expected_date now) (snd dp k)
        \<and> (\<forall>j<k. \<not> date_matches (expected_date now) (snd dp j)) \<longrightarrow>
        attempts (set_date_picker now i dp) = k + 1
        \<and> Print (date_warning i) \<notin> set (set_date_picker now i dp))
   \<and> ((\<forall>j<3. \<not> date_matches (expected_date now) (snd dp j)) \<longrightarrow>
        attempts (set_date_picker now i dp) = 3
        \<and> last (set_date_picker now i dp) = Print (date_warning i))
   \<and> date_matches (expected_date now) (expected_date now)
   \<and> expected_date \<lparr>year = 2024, month = 3, day = 5, hour = 0, minute = 0, second = 0,
        microsecond = 0\<rparr> = ''2024/3/5''
   \<and> set_dates now (dp # dps) = set_date_picker now 0 dp
        @ concat (map (\<lambda>(i, dp). set_date_picker now i dp) (enumerate 1 dps))"
proof -
  have self: "date_matches (expected_date now) (expected_date now)"
    by (simp add: date_matches_def)
  have unpadded: "expected_date \<lparr>year = 2024, month = 3, day = 5, hour = 0, minute = 0,
      second = 0, microsecond = 0\<rparr> = ''2024/3/5''"
    by (simp add: expected_date_def py_str_def)
  from set_date_picker_at_most_3 [of now i dp] set_date_picker_stops [of k now dp i]
    set_date_picker_gives_up [of now dp i] self unpadded set_dates_Cons [of now dp dps]
  show ?thesis by blast
qed

theorem set_date_picker_retries_witness:
  "attempts (set_date_picker
       \<lparr>year = 2024, month = 3, day = 5, hour = 0, minute = 0, second = 0, microsecond = 0\<rparr> 1
       (\<lparr>rect_left = 100, rect_top = 20, rect_right = 200, rect_bottom = 41\<rparr>,
        \<lambda>k. if k = 1 then ''2024/3/5'' else ''2024/1/1'')) = 2
   \<and> attempts (set_date_picker
       \<lparr>year = 2024, month = 3, day = 5, hour = 0, minute = 0, second = 0, microsecond = 0\<rparr> 1
       (\<lparr>rect_left = 100, rect_top = 20, rect_right = 200, rect_bottom = 41\<rparr>,
        \<lambda>k. ''2024/1/1'')) = 3
   \<and> last (set_date_picker
       \<lparr>year = 2024, month = 3, day = 5, hour = 0, minute = 0, second = 0, microsecond = 0\<rparr> 1
       (\<lparr>rect_left = 100, rect_top = 20, rect_right = 200, rect_bottom = 41\<rparr>,
        \<lambda>k. ''2024/1/1'')) = Print (date_warning 1)"
proof -
  let ?now = "\<lparr>year = 2024, month = 3, day = 5, hour = 0, minute = 0, second = 0,
    microsecond = 0\<rparr>"
  let ?r = "\<lparr>rect_left = 100, rect_top = 20, rect_right = 200, rect_bottom = 41\<rparr>"
  have e: "expected_date ?now = ''2024/3/5''"
    by (simp add: expected_date_def py_str_def)
  have yes: "date_matches ''2024/3/5'' ''2024/3/5''"
    by (simp add: date_matches_def)
  have no: "\<not> date_matches ''2024/3/5'' ''2024/1/1''"
    by (simp add: date_matches_def)
  from set_date_picker_retries
    [of ?now 1 "(?r, \<lambda>k. if k = 1 then ''2024/3/5'' else ''2024/1/1'')" 1 "[]"]
    set_date_picker_retries [of ?now 1 "(?r, \<lambda>k. ''2024/1/1'')" 0 "[]"] e yes no
  show ?thesis by simp
qed

section \<open>Properties of the extraction and of the loop over the reports\<close>

lemma copy_attempts_empty:
  assumes "\<forall>k<3. grab k = NoImage"
  shows "copy_attempts grab 0 3 =
    (NoImage, [Keys ''^c'', Print (retry_message 0), Keys ''^c'', Print (retry_message 1),
               Keys ''^c'', Print (retry_message 2)])"
proof -
  from assms have "grab 0 = NoImage" "grab 1 = NoImage" "grab 2 = NoImage" by simp_all
  then show ?thesis by (simp add: numeral_3_eq_3 numeral_2_eq_2)
qed

lemma extract_image_no_image:
  assumes "list_ex (pacs_at w) [0..<15]" "\<forall>k<3. clipboard w k = NoImage"
  shows "extract_image w =
    (False, None,
     [LogLine (NL # ''=== STEP 2: Extract Image ===''), LogLine ''Found PACS viewer window'',
      ClearClipboard, Keys ''^i'',
      Keys ''^c'', Print (retry_message 0), Keys ''^c'', Print (retry_message 1),
      Keys ''^c'', Print (retry_message 2),
      Print ''Error: No image found in clipboard after 3 attempts.''])"
  using assms(1) by (simp add: extract_image_def copy_attempts_empty [OF assms(2)])

lemma report_loop_extract_failed:
  assumes "\<not> fst (extract_image (world k))"
  shows "report_loop thumbnail world n k =
    (False, k, [LogLine (processing_message k n), DeleteImage] @ snd (snd (extract_image (world k)))
       @ [LogLine (extract_failed_message k)])"
proof -
  obtain img es where e: "extract_image (world k) = (False, img, es)"
    using assms by (cases "extract_image (world k)") auto
  show ?thesis
    by (subst report_loop.simps) (simp add: Let_def e)
qed

lemma begun_Nil: "reports_begun [] = 0"
  by (simp add: reports_begun_def)

lemma begun_Cons: "reports_begun (e # es) = (if e = DeleteImage then 1 else 0) + reports_begun es"
  by (simp add: reports_begun_def)

lemma begun_append: "reports_begun (a @ b) = reports_begun a + reports_begun b"
  by (simp add: reports_begun_def)

lemmas begun_simps = begun_Nil begun_Cons begun_append

lemma begun_copy: "reports_begun (snd (copy_attempts g a n)) = 0"
  by (induction n arbitrary: a) (simp_all add: begun_simps split_beta split: clip.splits)

lemma begun_extract: "reports_begun (snd (snd (extract_image w))) = 0"
proof -
  obtain img copied where c: "copy_attempts (clipboard w) 0 3 = (img, copied)"
    by (cases "copy_attempts (clipboard w) 0 3") auto
  with begun_copy [of "clipboard w" 0 3] have "reports_begun copied = 0" by simp
  with c show ?thesis
    by (cases img) (simp_all add: extract_image_def Let_def begun_simps)
qed

lemma begun_analyze: "reports_begun (snd (analyze_image th img r)) = 0"
  by (simp add: analyze_image_def Let_def begun_simps
      split: option.splits http_reply.splits sum.splits json.splits)

lemma begun_enter: "reports_begun (enter_report ed f) = 0"
  by (simp add: enter_report_def begun_simps split: editor.splits)

lemma report_loop_ok:
  assumes "report_ok thumbnail (world k)" "k + 1 < n"
  shows "fst (report_loop thumbnail world n k) = fst (report_loop thumbnail world n (k + 1))
    \<and> fst (snd (report_loop thumbnail world n k)) = fst (snd (report_loop thumbnail world n (k + 1)))
    \<and> reports_begun (snd (snd (report_loop thumbnail world n k)))
        = 1 + reports_begun (snd (snd (report_loop thumbnail world n (k + 1))))"
proof -
  obtain ex img es where e: "extract_image (world k) = (ex, img, es)"
    by (cases "extract_image (world k)") auto
  obtain f an where a: "analyze_image thumbnail img (endpoint_reply (world k)) = (f, an)"
    by (cases "analyze_image thumbnail img (endpoint_reply (world k))") auto
  from assms(1) e a have ok: "ex" "f \<noteq> None" "f \<noteq> Some []"
    by (simp_all add: report_ok_def)
  have b1: "reports_begun es = 0" using begun_extract [of "world k"] e by simp
  have b2: "reports_begun an = 0"
    using begun_analyze [of thumbnail img "endpoint_reply (world k)"] a by simp
  obtain ok' l' r' where r: "report_loop thumbnail world n (Suc k) = (ok', l', r')"
    by (cases "report_loop thumbnail world n (Suc k)") auto
  have "report_loop thumbnail world n k = (ok', l',
      ([LogLine (processing_message k n), DeleteImage] @ es @ an
        @ enter_report (editor_state (world k)) (the f) @ [LogLine (completed_message k)])
      @ [Keys ''{F4}''] @ r')"
    using ok assms(2) e a r by (subst report_loop.simps) (simp add: Let_def)
  with r b1 b2 show ?thesis
    by (simp add: begun_simps begun_enter)
qed

lemma report_loop_stops:
  assumes "\<forall>j. k0 \<le> j \<and> j < k \<longrightarrow> report_ok thumbnail (world j)"
    and "\<not> fst (extract_image (world k))" and "k0 \<le> k" and "k < n"
  shows "fst (report_loop thumbnail world n k0) = False
    \<and> fst (snd (report_loop thumbnail world n k0)) = k
    \<and> reports_begun (snd (snd (report_loop thumbnail world n k0))) = k - k0 + 1"
  using assms
proof (induction "k - k0" arbitrary: k0)
  case 0
  then have "k0 = k" by simp
  with "0.prems"(2) show ?case
    by (simp add: report_loop_extract_failed begun_simps begun_extract)
next
  case (Suc d)
  then have lt: "k0 < k" by simp
  with Suc.prems have ok: "report_ok thumbnail (world k0)" by simp
  from lt Suc.prems have n: "k0 + 1 < n" by simp
  have "d = k - (k0 + 1)" using Suc.hyps(2) by simp
  moreover have "\<forall>j. k0 + 1 \<le> j \<and> j < k \<longrightarrow> report_ok thumbnail (world j)"
    using Suc.prems(1) by simp
  moreover have "k0 + 1 \<le> k" using lt by simp
  ultimately have IH: "fst (report_loop thumbnail world n (k0 + 1)) = False
    \<and> fst (snd (report_loop thumbnail world n (k0 + 1))) = k
    \<and> reports_begun (snd (snd (report_loop thumbnail world n (k0 + 1)))) = k - (k0 + 1) + 1"
    using Suc.hyps(1) Suc.prems(2,4) by blast
  from report_loop_ok [of thumbnail world k0 n, OF ok n] IH lt show ?case by simp
qed

lemma process_reports_stops:
  assumes "\<forall>j < k. report_ok thumbnail (world j)"
    and "\<not> fst (extract_image (world k))" and "k < n"
  shows "fst (process_reports thumbnail world n) = False
    \<and> reports_begun (snd (process_reports thumbnail world n)) = k + 1
    \<and> last (snd (process_reports thumbnail world n)) = LogLine (finished_with_errors_message k n)"
proof -
  from assms(1) have "\<forall>j. 0 \<le> j \<and> j < k \<longrightarrow> report_ok thumbnail (world j)" by simp
  from report_loop_stops [of 0 k thumbnail world n, OF this assms(2) _ assms(3)]
  have "fst (report_loop thumbnail world n 0) = False"
    "fst (snd (report_loop thumbnail world n 0)) = k"
    "reports_begun (snd (snd (report_loop thumbnail world n 0))) = k + 1"
    by simp_all
  then show ?thesis
    by (simp add: process_reports_def split_beta Let_def begun_simps)
qed


lemmas world_defs = good_world_def empty_clipboard_world_def

lemma pacs_first_poll: "pacs_at w 0 \<Longrightarrow> list_ex (pacs_at w) [0..<15]"
  by (auto simp: list_ex_iff)

lemma extract_image_empty_clipboard_world: "extract_image empty_clipboard_world = (False, None,
     [LogLine (NL # ''=== STEP 2: Extract Image ===''), LogLine ''Found PACS viewer window'',
      ClearClipboard, Keys ''^i'',
      Keys ''^c'', Print ''  Clipboard empty, retrying (1/3)...'',
         Keys ''^c'', Print ''  Clipboard empty, retrying (2/3)...'',
         Keys ''^c'', Print ''  Clipboard empty, retrying (3/3)...'',
      Print ''Error: No image found in clipboard after 3 attempts.''])"
proof -
  have "list_ex (pacs_at empty_clipboard_world) [0..<15]"
    by (rule pacs_first_poll) (simp add: world_defs)
  then show ?thesis
    by (simp add: extract_image_def world_defs numeral_3_eq_3 retry_message_def py_str_def Let_def)
qed

lemma extract_image_good_world: "extract_image good_world = (True, Some (800, 600),
     [LogLine (NL # ''=== STEP 2: Extract Image ===''), LogLine ''Found PACS viewer window'',
      ClearClipboard, Keys ''^i'', Keys ''^c'', SaveImage (800, 600)])"
proof -
  have "list_ex (pacs_at good_world) [0..<15]"
    by (rule pacs_first_poll) (simp add: world_defs)
  then show ?thesis
    by (simp add: extract_image_def world_defs numeral_3_eq_3 Let_def)
qed

lemma analyze_image_good_world: "fst (analyze_image (\<lambda>b i. b) (Some (800, 600)) (endpoint_reply good_world)) = Some ''Clear.''"
  by (simp add: world_defs analyze_image_def dict_get_def Let_def clean_response_def
      strip_prompt_def prompt_def first_paragraph_def strip_def lstrip_def rstrip_def is_space_def)

lemma report_ok_good_world: "report_ok (\<lambda>b i. b) good_world"
  using analyze_image_good_world by (simp add: report_ok_def extract_image_good_world split_beta)

lemma example_messages:
  "processing_message 0 2 = ''PROCESSING REPORT 1 OF 2''"
  "extract_failed_message 0 = ''[FAIL] Failed to extract image for report 1''"
  "finished_with_errors_message 0 2 = ''[FAIL] WORKFLOW FINISHED WITH ERRORS (completed 0 of 2)''"
  "finished_with_errors_message (Suc 0) 3
     = ''[FAIL] WORKFLOW FINISHED WITH ERRORS (completed 1 of 3)''"
  by (simp_all add: processing_message_def extract_failed_message_def
      finished_with_errors_message_def py_str_def)


text \<open>
  C4 as stated fails: when the clipboard stays empty for the first of two reports, the
  loop is left at once. The second report is never begun, though in the same world with
  a working clipboard both reports are processed, and the run ends with the summary of a
  failed run.
\<close>

theorem extraction_failure_ends_run_counterexample:
  "process_reports (\<lambda>b i. b) (\<lambda>k. if k = 0 then empty_clipboard_world else good_world) 2
     = (False,
        [LogLine ''PROCESSING REPORT 1 OF 2'', DeleteImage,
         LogLine (NL # ''=== STEP 2: Extract Image ===''), LogLine ''Found PACS viewer window'',
         ClearClipboard, Keys ''^i'',
         Keys ''^c'', Print ''  Clipboard empty, retrying (1/3)...'',
         Keys ''^c'', Print ''  Clipboard empty, retrying (2/3)...'',
         Keys ''^c'', Print ''  Clipboard empty, retrying (3/3)...'',
         Print ''Error: No image found in clipboard after 3 attempts.'',
         LogLine ''[FAIL] Failed to extract image for report 1'',
         LogLine ''[FAIL] WORKFLOW FINISHED WITH ERRORS (completed 0 of 2)''])
   \<and> reports_begun (snd (process_reports (\<lambda>b i. b)
         (\<lambda>k. if k = 0 then empty_clipboard_world else good_world) 2)) = 1
   \<and> fst (process_reports (\<lambda>b i. b) (\<lambda>k. good_world) 2)
   \<and> reports_begun (snd (process_reports (\<lambda>b i. b) (\<lambda>k. good_world) 2)) = 2"
proof -
  let ?world = "\<lambda>k::nat. if k = 0 then empty_clipboard_world else good_world"
  have "\<not> fst (extract_image (?world 0))"
    by (simp add: extract_image_empty_clipboard_world)
  from report_loop_extract_failed [of ?world 0 "\<lambda>b i. b" 2, OF this]
  have stopped: "process_reports (\<lambda>b i. b) ?world 2
     = (False,
        [LogLine ''PROCESSING REPORT 1 OF 2'', DeleteImage,
         LogLine (NL # ''=== STEP 2: Extract Image ===''), LogLine ''Found PACS viewer window'',
         ClearClipboard, Keys ''^i'',
         Keys ''^c'', Print ''  Clipboard empty, retrying (1/3)...'',
         Keys ''^c'', Print ''  Clipboard empty, retrying (2/3)...'',
         Keys ''^c'', Print ''  Clipboard empty, retrying (3/3)...'',
         Print ''Error: No image found in clipboard after 3 attempts.'',
         LogLine ''[FAIL] Failed to extract image for report 1'',
         LogLine ''[FAIL] WORKFLOW FINISHED WITH ERRORS (completed 0 of 2)''])"
    by (simp add: process_reports_def extract_image_empty_clipboard_world example_messages)
  have second: "fst (report_loop (\<lambda>b i. b) (\<lambda>k. good_world) 2 1) = True
     \<and> reports_begun (snd (snd (report_loop (\<lambda>b i. b) (\<lambda>k. good_world) 2 1))) = 1"
    using analyze_image_good_world
    by (subst (1 2) report_loop.simps)
      (simp add: Let_def extract_image_good_world split_beta begun_simps begun_analyze
        begun_enter)
  from report_loop_ok [of "\<lambda>b i. b" "\<lambda>k. good_world" 0 2] report_ok_good_world second
  have both: "fst (process_reports (\<lambda>b i. b) (\<lambda>k. good_world) 2)
     \<and> reports_begun (snd (process_reports (\<lambda>b i. b) (\<lambda>k. good_world) 2)) = 2"
    by (simp add: process_reports_def split_beta begun_simps)
  from stopped both show ?thesis
    by (simp add: begun_simps)
qed

text \<open>
  C4, amended. When no image is in the clipboard after all 3 copies,
  \<^const>\<open>extract_image\<close> prints that no image was found and returns \<open>False\<close>, raising
  nothing. The loop over the reports then logs the failed extraction and is left: when
  the reports before report \<open>k\<close> went well and the extraction of report \<open>k\<close> fails, the
  run is not a success, exactly the reports up to \<open>k\<close> were begun and none after it, and
  the last line logged is the summary of a run finished with errors.
\<close>

theorem extraction_failure_reported_and_ends_loop:
  "(list_ex (pacs_at w) [0..<15] \<and> (\<forall>a<3. clipboard w a = NoImage) \<longrightarrow>
      extract_image w =
        (False, None,
         [LogLine (NL # ''=== STEP 2: Extract Image ===''), LogLine ''Found PACS viewer window'',
          ClearClipboard, Keys ''^i'',
          Keys ''^c'', Print (retry_message 0), Keys ''^c'', Print (retry_message 1),
          Keys ''^c'', Print (retry_message 2),
          Print ''Error: No image found in clipboard after 3 attempts.'']))
   \<and> (\<not> fst (extract_image (world k)) \<longrightarrow>
        report_loop thumbnail world n k =
          (False, k, [LogLine (processing_message k n), DeleteImage]
             @ snd (snd (extract_image (world k))) @ [LogLine (extract_failed_message k)]))
   \<and> ((\<forall>j<k. report_ok thumbnail (world j)) \<and> \<not> fst (extract_image (world k)) \<and> k < n \<longrightarrow>
        fst (process_reports thumbnail world n) = False
        \<and> reports_begun (snd (process_reports thumbnail world n)) = k + 1
        \<and> last (snd (process_reports thumbnail world n))
            = LogLine (finished_with_errors_message k n))"
  using extract_image_no_image [of w] report_loop_extract_failed [of world k thumbnail n]
    process_reports_stops [of k thumbnail world n]
  by blast

theorem extraction_failure_reported_and_ends_loop_witness:
  "fst (extract_image empty_clipboard_world) = False
   \<and> last (snd (snd (extract_image empty_clipboard_world)))
       = Print ''Error: No image found in clipboard after 3 attempts.''
   \<and> fst (process_reports (\<lambda>b i. b)
         (\<lambda>k. if k = 1 then empty_clipboard_world else good_world) 3) = False
   \<and> reports_begun (snd (process_reports (\<lambda>b i. b)
         (\<lambda>k. if k = 1 then empty_clipboard_world else good_world) 3)) = 2
   \<and> last (snd (process_reports (\<lambda>b i. b)
         (\<lambda>k. if k = 1 then empty_clipboard_world else good_world) 3))
       = LogLine ''[FAIL] WORKFLOW FINISHED WITH ERRORS (completed 1 of 3)''"
proof -
  let ?world = "\<lambda>k::nat. if k = 1 then empty_clipboard_world else good_world"
  have pacs: "list_ex (pacs_at empty_clipboard_world) [0..<15]"
    by (rule pacs_first_poll) (simp add: world_defs)
  have empty: "\<forall>a<3. clipboard empty_clipboard_world a = NoImage"
    by (simp add: world_defs)
  have before: "\<forall>j<1. report_ok (\<lambda>b i. b) (?world j)"
    by (simp add: report_ok_good_world)
  have fails: "\<not> fst (extract_image (?world 1))"
    by (simp add: extract_image_empty_clipboard_world)
  from extraction_failure_reported_and_ends_loop
    [of empty_clipboard_world ?world 1 "\<lambda>b i. b" 3] pacs empty before fails
  show ?thesis
    by (simp add: example_messages)
qed

text \<open>
  The guard before \<^verbatim>\<open>Image.thumbnail\<close>: an image whose longer side is at most 1024
  pixels is sent as it is, a larger one in the size Pillow computes for the box.
\<close>

lemma resize_for_upload_small:
  "max (fst img) (snd img) \<le> 1024 \<Longrightarrow> resize_for_upload thumbnail img = img"
  by (auto simp: resize_for_upload_def)

lemma resize_for_upload_large:
  "1024 < max (fst img) (snd img) \<Longrightarrow>
     resize_for_upload thumbnail img = thumbnail (1024, 1024) img"
  by (simp add: resize_for_upload_def)

text \<open>
  So the longer side of what is sent is at most 1024 pixels for every function
  \<open>thumbnail\<close> that keeps its result within the box it is given.
\<close>

lemma resize_for_upload_within:
  assumes "\<And>box i. fst (thumbnail box i) \<le> fst box \<and> snd (thumbnail box i) \<le> snd box"
  shows "max (fst (resize_for_upload thumbnail img)) (snd (resize_for_upload thumbnail img))
    \<le> 1024"
proof (cases "1024 < max (fst img) (snd img)")
  case True
  with assms [of "(1024, 1024)" img] show ?thesis
    by (simp add: resize_for_upload_large)
next
  case False
  then have small: "max (fst img) (snd img) \<le> 1024" by linarith
  then have "resize_for_upload thumbnail img = img" by (rule resize_for_upload_small)
  with small show ?thesis by simp
qed


subsection \<open>The size after downscaling\<close>

lemma round_aspect_ge_1: "1 \<le> round_aspect number key"
  by (simp add: round_aspect_def)

lemma round_aspect_le:
  assumes "number \<le> of_int b" "1 \<le> b"
  shows "round_aspect number key \<le> b"
proof -
  from assms(1) have ce: "\<lceil>number\<rceil> \<le> b" by (simp add: ceiling_le_iff)
  have "\<lfloor>number\<rfloor> \<le> \<lceil>number\<rceil>" by simp
  with ce have fl: "\<lfloor>number\<rfloor> \<le> b" by linarith
  from ce fl assms(2) show ?thesis by (simp add: round_aspect_def)
qed

lemma round_aspect_near:
  assumes "0 < number"
  shows "\<bar>of_int (round_aspect number key) - number\<bar> < 1"
proof -
  define n where "n = (if key \<lfloor>number\<rfloor> \<le> key \<lceil>number\<rceil> then \<lfloor>number\<rfloor> else \<lceil>number\<rceil>)"
  have r: "round_aspect number key = max n 1" by (simp add: round_aspect_def n_def)
  have fl: "\<bar>of_int \<lfloor>number\<rfloor> - number\<bar> < 1" by linarith
  have ce: "\<bar>of_int \<lceil>number\<rceil> - number\<bar> < 1" by linarith
  from fl ce have near: "\<bar>of_int n - number\<bar> < 1" by (simp add: n_def)
  show ?thesis
  proof (cases "1 \<le> n")
    case True
    with r near show ?thesis by simp
  next
    case False
    then have n0: "n \<le> 0" by simp
    have f0: "0 \<le> \<lfloor>number\<rfloor>" using assms by simp
    have c1: "1 \<le> \<lceil>number\<rceil>" using assms by (simp add: le_ceiling_iff)
    have "n = \<lfloor>number\<rfloor> \<or> n = \<lceil>number\<rceil>" by (simp add: n_def)
    then have "n = 0"
    proof
      assume "n = \<lfloor>number\<rfloor>"
      with n0 f0 show ?thesis by linarith
    next
      assume "n = \<lceil>number\<rceil>"
      with n0 c1 show ?thesis by linarith
    qed
    with near have "number < 1" by simp
    with assms r \<open>n = 0\<close> show ?thesis by simp
  qed
qed

lemma round_aspect_exact:
  assumes "number = of_int m" "1 \<le> m"
  shows "round_aspect number key = m"
  using assms by (simp add: round_aspect_def)

lemma thumbnail_portrait:
  assumes "0 < w" "w \<le> h" "1024 < h"
  obtains key where "resize_for_upload pillow_thumbnail (w, h)
    = (nat (round_aspect (1024 * real w / real h) key), 1024)"
proof -
  from assms have c: "real w * 1024 / real h \<le> 1024" by (simp add: field_simps)
  have "resize_for_upload pillow_thumbnail (w, h)
    = (nat (round_aspect (1024 * real w / real h)
         (\<lambda>n. \<bar>real w / real h - real_of_int n / 1024\<bar>)), 1024)"
    using assms c by (simp add: resize_for_upload_def pillow_thumbnail_def Let_def)
  then show thesis by (rule that)
qed

lemma thumbnail_landscape:
  assumes "0 < h" "h < w" "1024 < w"
  obtains key where "resize_for_upload pillow_thumbnail (w, h)
    = (1024, nat (round_aspect (1024 * real h / real w) key))"
proof -
  have "resize_for_upload pillow_thumbnail (w, h)
    = (1024, nat (round_aspect (1024 * real h / real w)
         (\<lambda>n. if n = 0 then 0 else \<bar>real w / real h - real_of_int 1024 / real_of_int n\<bar>)))"
    using assms by (simp add: resize_for_upload_def pillow_thumbnail_def Let_def)
  then show thesis by (rule that)
qed


lemma resize_portrait:
  assumes "0 < w" "w \<le> h" "1024 < h"
  shows "snd (resize_for_upload pillow_thumbnail (w, h)) = 1024
    \<and> 1 \<le> fst (resize_for_upload pillow_thumbnail (w, h))
    \<and> fst (resize_for_upload pillow_thumbnail (w, h)) \<le> 1024
    \<and> \<bar>real (fst (resize_for_upload pillow_thumbnail (w, h))) - 1024 * real w / real h\<bar> < 1
    \<and> (h dvd 1024 * w \<longrightarrow> same_aspect (w, h) (resize_for_upload pillow_thumbnail (w, h)))"
proof -
  let ?N = "1024 * real w / real h"
  from assms obtain key where r: "resize_for_upload pillow_thumbnail (w, h)
      = (nat (round_aspect ?N key), 1024)"
    by (rule thumbnail_portrait)
  from assms have pos: "0 < ?N" by simp
  from assms have le: "?N \<le> of_int 1024" by (simp add: field_simps)
  have ge1: "1 \<le> round_aspect ?N key" by (rule round_aspect_ge_1)
  have le1024: "round_aspect ?N key \<le> 1024" using le by (rule round_aspect_le) simp
  have near: "\<bar>of_int (round_aspect ?N key) - ?N\<bar> < 1" using pos by (rule round_aspect_near)
  have exact: "same_aspect (w, h) (resize_for_upload pillow_thumbnail (w, h))" if d: "h dvd 1024 * w"
  proof -
    from d obtain q where q: "1024 * w = h * q" by (auto simp: dvd_def)
    with assms have "0 < q" by (cases q) auto
    from q have "1024 * real w = real h * real q" by (metis of_nat_mult of_nat_numeral)
    with assms have "?N = of_int (int q)" by (simp add: field_simps)
    then have "round_aspect ?N key = int q" using \<open>0 < q\<close> by (intro round_aspect_exact) auto
    with r q show ?thesis by (simp add: same_aspect_def mult.commute)
  qed
  from r ge1 le1024 near exact show ?thesis by auto
qed

lemma resize_landscape:
  assumes "0 < h" "h < w" "1024 < w"
  shows "fst (resize_for_upload pillow_thumbnail (w, h)) = 1024
    \<and> 1 \<le> snd (resize_for_upload pillow_thumbnail (w, h))
    \<and> snd (resize_for_upload pillow_thumbnail (w, h)) \<le> 1024
    \<and> \<bar>real (snd (resize_for_upload pillow_thumbnail (w, h))) - 1024 * real h / real w\<bar> < 1
    \<and> (w dvd 1024 * h \<longrightarrow> same_aspect (w, h) (resize_for_upload pillow_thumbnail (w, h)))"
proof -
  let ?N = "1024 * real h / real w"
  from assms obtain key where r: "resize_for_upload pillow_thumbnail (w, h)
      = (1024, nat (round_aspect ?N key))"
    by (rule thumbnail_landscape)
  from assms have pos: "0 < ?N" by simp
  from assms have le: "?N \<le> of_int 1024" by (simp add: field_simps)
  have ge1: "1 \<le> round_aspect ?N key" by (rule round_aspect_ge_1)
  have le1024: "round_aspect ?N key \<le> 1024" using le by (rule round_aspect_le) simp
  have near: "\<bar>of_int (round_aspect ?N key) - ?N\<bar> < 1" using pos by (rule round_aspect_near)
  have exact: "same_aspect (w, h) (resize_for_upload pillow_thumbnail (w, h))" if d: "w dvd 1024 * h"
  proof -
    from d obtain q where q: "1024 * h = w * q" by (auto simp: dvd_def)
    with assms have "0 < q" by (cases q) auto
    from q have "1024 * real h = real w * real q" by (metis of_nat_mult of_nat_numeral)
    with assms have "?N = of_int (int q)" by (simp add: field_simps)
    then have "round_aspect ?N key = int q" using \<open>0 < q\<close> by (intro round_aspect_exact) auto
    with r q show ?thesis by (simp add: same_aspect_def mult.commute)
  qed
  from r ge1 le1024 near exact show ?thesis by auto
qed


lemma resize_examples:
  "resize_for_upload pillow_thumbnail (1025, 600) = (1024, 599)"
  "resize_for_upload pillow_thumbnail (2000, 1500) = (1024, 768)"
  "resize_for_upload pillow_thumbnail (800, 600) = (800, 600)"
  by (simp_all add: resize_for_upload_def pillow_thumbnail_def round_aspect_def Let_def)

text \<open>
  C8 as stated fails in its middle part: an image of 1025 by 600 pixels is sent as 1024
  by 599, which is not the aspect ratio it had (1025 x 599 is not 1024 x 600).
\<close>

theorem downscale_aspect_ratio_counterexample:
  "resize_for_upload pillow_thumbnail (1025, 600) = (1024, 599)
   \<and> \<not> same_aspect (1025, 600) (resize_for_upload pillow_thumbnail (1025, 600))"
  by (simp add: resize_examples same_aspect_def)

text \<open>
  C8, amended. The downscaling step leaves an image whose longer side is at most 1024
  pixels as it is. Of a larger image it makes the longer side exactly 1024 pixels and the
  other side the proportional length rounded down or up to whole pixels (within one pixel
  of it, and at least 1 pixel). So the longer side of what is sent is always at most 1024
  pixels, and the aspect ratio is kept up to that rounding: exactly when the proportional
  length is a whole number of pixels.
\<close>

theorem downscale_longer_side_and_rounding:
  assumes "0 < w" and "0 < h"
  shows "(max w h \<le> 1024 \<longrightarrow> resize_for_upload pillow_thumbnail (w, h) = (w, h))
   \<and> max (fst (resize_for_upload pillow_thumbnail (w, h)))
         (snd (resize_for_upload pillow_thumbnail (w, h))) \<le> 1024
   \<and> (1024 < max w h \<longrightarrow>
        max (fst (resize_for_upload pillow_thumbnail (w, h)))
          (snd (resize_for_upload pillow_thumbnail (w, h))) = 1024
        \<and> 1 \<le> min (fst (resize_for_upload pillow_thumbnail (w, h)))
                  (snd (resize_for_upload pillow_thumbnail (w, h))))
   \<and> (1024 < max w h \<and> w \<le> h \<longrightarrow>
        snd (resize_for_upload pillow_thumbnail (w, h)) = 1024
        \<and> \<bar>real (fst (resize_for_upload pillow_thumbnail (w, h))) - 1024 * real w / real h\<bar> < 1
        \<and> (h dvd 1024 * w \<longrightarrow>
              same_aspect (w, h) (resize_for_upload pillow_thumbnail (w, h))))
   \<and> (1024 < max w h \<and> h < w \<longrightarrow>
        fst (resize_for_upload pillow_thumbnail (w, h)) = 1024
        \<and> \<bar>real (snd (resize_for_upload pillow_thumbnail (w, h))) - 1024 * real h / real w\<bar> < 1
        \<and> (w dvd 1024 * h \<longrightarrow>
              same_aspect (w, h) (resize_for_upload pillow_thumbnail (w, h))))"
proof (cases "1024 < max w h")
  case False
  then have small: "max w h \<le> 1024" by linarith
  then have "resize_for_upload pillow_thumbnail (w, h) = (w, h)"
    using resize_for_upload_small [of "(w, h)" pillow_thumbnail] by simp
  with small False show ?thesis by simp
next
  case True
  show ?thesis
  proof (cases "w \<le> h")
    case portrait: True
    with True have "1024 < h" by simp
    from resize_portrait [OF assms(1) portrait this] True portrait show ?thesis
      by (simp add: max_def min_def)
  next
    case False
    then have landscape: "h < w" by simp
    with True have "1024 < w" by simp
    from resize_landscape [OF assms(2) landscape this] True landscape show ?thesis
      by (simp add: max_def min_def)
  qed
qed

theorem downscale_longer_side_and_rounding_witness:
  "resize_for_upload pillow_thumbnail (800, 600) = (800, 600)
   \<and> resize_for_upload pillow_thumbnail (2000, 1500) = (1024, 768)
   \<and> same_aspect (2000, 1500) (1024, 768)
   \<and> resize_for_upload pillow_thumbnail (600, 1025) = (599, 1024)
   \<and> \<bar>real 599 - 1024 * real 600 / real 1025\<bar> < 1"
proof -
  have portrait: "resize_for_upload pillow_thumbnail (600, 1025) = (599, 1024)"
    by (simp add: resize_for_upload_def pillow_thumbnail_def round_aspect_def Let_def)
  from downscale_longer_side_and_rounding [of 800 600]
    downscale_longer_side_and_rounding [of 2000 1500]
    downscale_longer_side_and_rounding [of 600 1025] portrait
  show ?thesis
    by (simp add: resize_examples same_aspect_def)
qed

section \<open>Properties of \<^const>\<open>escape_for_type_keys\<close>\<close>

lemma special_simps:
  "special c =
     (if c = CHR ''{'' then Some ''{{}'' else if c = CHR ''}'' then Some ''{}}''
      else if c = CHR ''+'' then Some ''{+}'' else if c = CHR ''^'' then Some ''{^}''
      else if c = CHR ''%'' then Some ''{%}'' else if c = CHR ''('' then Some ''{(}''
      else if c = CHR '')'' then Some ''{)}'' else None)"
  by (simp add: special_def)

lemma special_dom: "special c \<noteq> None \<longleftrightarrow> c \<in> set special_chars"
  by (auto simp: special_simps special_chars_def)

lemma special_Some:
  "special c = Some s \<Longrightarrow> s = [CHR ''{'', c, CHR ''}''] \<and> c \<in> set special_chars"
  by (auto simp: special_simps special_chars_def split: if_splits)

text \<open>Reading back one escaped character gives the character, whatever follows it.\<close>

lemma unescape_escape_char:
  "unescape (escape_char c @ rest) = map_option ((#) c) (unescape rest)"
proof (cases "special c")
  case (Some s)
  then have "s = [CHR ''{'', c, CHR ''}'']" and "c \<in> set special_chars"
    using special_Some by blast+
  with Some show ?thesis by (simp add: escape_char_def)
next
  case None
  then have ns: "c \<notin> set special_chars" using special_dom by blast
  then have nb: "c \<noteq> CHR ''{''" by (auto simp: special_chars_def)
  show ?thesis
  proof (cases "c = NL")
    case True
    with None show ?thesis by (simp add: escape_char_def special_chars_def)
  next
    case False
    with None ns nb show ?thesis by (simp add: escape_char_def)
  qed
qed

lemma unescape_concat: "unescape (concat (map escape_char t)) = Some t"
  by (induction t) (simp_all add: unescape_escape_char)

text \<open>One escaped character holds one \<^verbatim>\<open>{ENTER}\<close> if it was a newline, none otherwise.\<close>

lemma count_escape_char:
  "str_count ''{ENTER}'' (escape_char c @ rest) =
     (if c = NL then 1 else 0) + str_count ''{ENTER}'' rest"
proof (cases "special c")
  case (Some s)
  then have "s = [CHR ''{'', c, CHR ''}'']" and "c \<in> set special_chars"
    using special_Some by blast+
  with Some show ?thesis by (auto simp add: escape_char_def special_chars_def)
next
  case None
  then have ns: "c \<notin> set special_chars" using special_dom by blast
  then have nb: "c \<noteq> CHR ''{''" by (auto simp: special_chars_def)
  show ?thesis
  proof (cases "c = NL")
    case True
    with None show ?thesis by (simp add: escape_char_def special_chars_def)
  next
    case False
    with None ns nb show ?thesis by (simp add: escape_char_def)
  qed
qed

lemma count_concat:
  "str_count ''{ENTER}'' (concat (map escape_char t)) = count_list t NL"
  by (induction t) (simp_all add: count_escape_char)

text \<open>After the two \<^verbatim>\<open>replace\<close> calls every newline of the input is one \<^verbatim>\<open>\n\<close>.\<close>

lemma count_normalize: "count_list (normalize_newlines t) NL = count_newlines t"
  unfolding normalize_newlines_def str_replace_single
  by (induction t rule: count_newlines.induct)
    (auto simp del: str_replace.simps simp add: replace_crlf_simps)

lemma normalize_no_cr: "CR \<notin> set t \<Longrightarrow> normalize_newlines t = t"
  unfolding normalize_newlines_def str_replace_single
  by (induction t rule: count_newlines.induct)
    (auto simp del: str_replace.simps simp add: replace_crlf_simps)

text \<open>
  C1. For every input text: reading the escaped output back (\<^verbatim>\<open>{{}\<close> as \<^verbatim>\<open>{\<close>,
  \<^verbatim>\<open>{}}\<close> as \<^verbatim>\<open>}\<close>, \<^verbatim>\<open>{+}\<close>, \<^verbatim>\<open>{^}\<close>, \<^verbatim>\<open>{%}\<close>, \<^verbatim>\<open>{(}\<close>, \<^verbatim>\<open>{)}\<close> as the
  character inside, \<^verbatim>\<open>{ENTER}\<close> as a newline) gives the characters of the input, with
  each of its newlines \<^verbatim>\<open>\n\<close>, \<^verbatim>\<open>\r\<close>, \<^verbatim>\<open>\r\n\<close> read back as one \<^verbatim>\<open>\n\<close> (so a text
  without \<^verbatim>\<open>\r\<close> is read back unchanged); the output holds exactly one \<^verbatim>\<open>{ENTER}\<close>
  token for every newline of the input; and no special character
  \<^verbatim>\<open>{ } + ^ % ( )\<close> stands unescaped in the output.
\<close>

theorem escape_for_type_keys_reversible:
  "unescape (escape_for_type_keys t) = Some (normalize_newlines t)
   \<and> (CR \<notin> set t \<longrightarrow> unescape (escape_for_type_keys t) = Some t)
   \<and> str_count ''{ENTER}'' (escape_for_type_keys t) = count_newlines t
   \<and> no_unescaped_special (escape_for_type_keys t)"
proof -
  have rd: "unescape (escape_for_type_keys t) = Some (normalize_newlines t)"
    by (simp add: escape_for_type_keys_def unescape_concat)
  have "str_count ''{ENTER}'' (escape_for_type_keys t) = count_list (normalize_newlines t) NL"
    by (simp add: escape_for_type_keys_def count_concat)
  then have enters: "str_count ''{ENTER}'' (escape_for_type_keys t) = count_newlines t"
    by (simp add: count_normalize)
  from rd have safe: "no_unescaped_special (escape_for_type_keys t)"
    by (simp add: no_unescaped_special_def)
  from rd have "CR \<notin> set t \<longrightarrow> unescape (escape_for_type_keys t) = Some t"
    by (simp add: normalize_no_cr)
  with rd enters safe show ?thesis by blast
qed

theorem escape_for_type_keys_reversible_witness:
  "CR \<notin> set ''f(x) {+3%}''
   \<and> escape_for_type_keys ''f(x) {+3%}'' = ''f{(}x{)} {{}{+}3{%}{}}''
   \<and> unescape (escape_for_type_keys ''f(x) {+3%}'') = Some ''f(x) {+3%}''
   \<and> str_count ''{ENTER}'' (escape_for_type_keys [CHR ''a'', CR, NL, CHR ''b'', CR, NL, NL]) = 3
   \<and> count_newlines [CHR ''a'', CR, NL, CHR ''b'', CR, NL, NL] = 3
   \<and> no_unescaped_special (escape_for_type_keys ''f(x) {+3%}'')"
  using escape_for_type_keys_reversible [of "''f(x) {+3%}''"]
    escape_for_type_keys_reversible [of "[CHR ''a'', CR, NL, CHR ''b'', CR, NL, NL]"]
  by (simp add: escape_for_type_keys_def normalize_newlines_def escape_char_def special_def
      special_chars_def no_unescaped_special_def)

end
